theory Spec2Isabelle
  imports Main "HOL-Library.Word"
begin

unbundle bit_operations_syntax

section \<open>The platform: SPI bus, chip-select pin and millisecond clock\<close>

text \<open>
  The driver talks to the W5500 through the Arduino calls \<^verbatim>\<open>digitalWrite\<close>,
  \<^verbatim>\<open>SPI.transfer16\<close>, \<^verbatim>\<open>SPI.transfer\<close>, \<^verbatim>\<open>millis\<close> and \<^verbatim>\<open>delay\<close>.
  The device behind the bus is an arbitrary deterministic machine over a state \<open>'d\<close>:
  it reacts to the chip-select edges, answers every byte shifted out with a byte shifted
  in, and evolves while time passes. \<open>uninit\<close> is the indeterminate content of an
  uninitialised local byte (\<^verbatim>\<open>uint8_t data;\<close>), which the read paths shift out.
\<close>

record 'd hardware =
  spi_select :: "'d \<Rightarrow> 'd"
  spi_shift :: "8 word \<Rightarrow> 'd \<Rightarrow> 8 word \<times> 'd"
  spi_deselect :: "'d \<Rightarrow> 'd"
  elapse_ms :: "'d \<Rightarrow> 'd"
  uninit :: "8 word"

datatype level = LOW | HIGH

text \<open>Every call into the platform is recorded, in order, with what the driver passed.\<close>

datatype event =
    DigitalWrite level
  | Shift "8 word"
  | ReadMillis
  | Delay "32 word"

text \<open>
  The world: the device state, the value of \<^verbatim>\<open>millis()\<close> (an \<^verbatim>\<open>unsigned long\<close>,
  32 bits, wrapping) and the trace of platform calls so far. Time is simulated: only
  \<^verbatim>\<open>delay\<close> advances the clock.
\<close>

record 'd world =
  dev :: 'd
  clock :: "32 word"
  trace :: "event list"

definition digitalWrite_cs :: "'d hardware \<Rightarrow> level \<Rightarrow> 'd world \<Rightarrow> 'd world" where
  "digitalWrite_cs h l w =
     w\<lparr>dev := (case l of LOW \<Rightarrow> spi_select h (dev w) | HIGH \<Rightarrow> spi_deselect h (dev w)),
       trace := trace w @ [DigitalWrite l]\<rparr>"

definition SPI_transfer :: "'d hardware \<Rightarrow> 8 word \<Rightarrow> 'd world \<Rightarrow> 8 word \<times> 'd world" where
  "SPI_transfer h b w =
     (case spi_shift h b (dev w) of
        (r, d) \<Rightarrow> (r, w\<lparr>dev := d, trace := trace w @ [Shift b]\<rparr>))"

text \<open>\<^verbatim>\<open>SPI.transfer16\<close> under \<^verbatim>\<open>MSBFIRST\<close>: the high byte goes first.\<close>

definition SPI_transfer16 :: "'d hardware \<Rightarrow> 16 word \<Rightarrow> 'd world \<Rightarrow> 16 word \<times> 'd world" where
  "SPI_transfer16 h v w =
     (case SPI_transfer h (ucast (drop_bit 8 v)) w of
        (r1, w1) \<Rightarrow>
          (case SPI_transfer h (ucast v) w1 of
             (r2, w2) \<Rightarrow> (push_bit 8 (ucast r1) OR ucast r2, w2)))"

text \<open>\<^verbatim>\<open>SPI.transfer(buf, count)\<close>: each byte is shifted out and replaced by the byte shifted in.\<close>

fun SPI_transfer_buf :: "'d hardware \<Rightarrow> 8 word list \<Rightarrow> 'd world \<Rightarrow> 8 word list \<times> 'd world" where
  "SPI_transfer_buf h [] w = ([], w)"
| "SPI_transfer_buf h (b # bs) w =
     (case SPI_transfer h b w of
        (r, w1) \<Rightarrow> (case SPI_transfer_buf h bs w1 of (rs, w2) \<Rightarrow> (r # rs, w2)))"

definition millis :: "'d world \<Rightarrow> 32 word \<times> 'd world" where
  "millis w = (clock w, w\<lparr>trace := trace w @ [ReadMillis]\<rparr>)"

definition delay :: "'d hardware \<Rightarrow> 32 word \<Rightarrow> 'd world \<Rightarrow> 'd world" where
  "delay h ms w =
     w\<lparr>dev := (elapse_ms h ^^ unat ms) (dev w),
       clock := clock w + ms,
       trace := trace w @ [Delay ms]\<rparr>"

section \<open>SpiFrame\<close>

datatype BlockSelect = CommonReg | SocketReg | TxBuffer | RxBuffer

datatype ReadWrite = Read | Write

fun bsb_value :: "BlockSelect \<Rightarrow> 32 word" where
  "bsb_value CommonReg = 0"
| "bsb_value SocketReg = 1"
| "bsb_value TxBuffer = 2"
| "bsb_value RxBuffer = 3"

fun rw_value :: "ReadWrite \<Rightarrow> 32 word" where
  "rw_value Read = 0"
| "rw_value Write = 1"

record Frame =
  offset_addr :: "16 word"
  socket_n :: "8 word"
  bsb :: BlockSelect
  rw :: ReadWrite

text \<open>
  The argument of \<^verbatim>\<open>SPI.transfer( (frame.socket_n<<2 | frame.bsb) << 3 | frame.rw << 2)\<close>:
  computed in \<^verbatim>\<open>int\<close> after integer promotion, then converted to \<^verbatim>\<open>uint8_t\<close>.
\<close>

definition control_int :: "Frame \<Rightarrow> 32 word" where
  "control_int frame =
     push_bit 3 (push_bit 2 (ucast (socket_n frame)) OR bsb_value (bsb frame))
       OR push_bit 2 (rw_value (rw frame))"

definition control_byte :: "Frame \<Rightarrow> 8 word" where
  "control_byte frame = ucast (control_int frame)"

text \<open>
  \<^verbatim>\<open>SpiFrame::transfer(frame, data, len)\<close>. The buffer is a list; the first \<open>len\<close>
  bytes are exchanged in place and the rest is left as it was. The result is the buffer
  after the call.
\<close>

definition transfer ::
  "'d hardware \<Rightarrow> Frame \<Rightarrow> 8 word list \<Rightarrow> 16 word \<Rightarrow> 'd world \<Rightarrow> 8 word list \<times> 'd world" where
  "transfer h frame data len w =
     (let w1 = digitalWrite_cs h LOW w in
      case SPI_transfer16 h (offset_addr frame) w1 of
        (_, w2) \<Rightarrow>
          (case SPI_transfer h (control_byte frame) w2 of
             (_, w3) \<Rightarrow>
               (case SPI_transfer_buf h (take (unat len) data) w3 of
                  (rx, w4) \<Rightarrow> (rx @ drop (unat len) data, digitalWrite_cs h HIGH w4))))"

text \<open>
  \<^verbatim>\<open>SpiFrame::wait_for_value\<close>. \<open>timeout_ms\<close> is the value of
  \<^verbatim>\<open>static_cast<unsigned long>(timeout_seconds * 1000)\<close>; \<open>wait_loop\<close> is the
  \<^verbatim>\<open>while\<close> loop, \<open>start_time\<close> the clock value read before it.
\<close>

function wait_loop ::
  "'d hardware \<Rightarrow> Frame \<Rightarrow> 8 word \<Rightarrow> 8 word \<Rightarrow> 32 word \<Rightarrow> 32 word \<Rightarrow> 'd world \<Rightarrow> bool \<times> 'd world" where
  "wait_loop h frame msk val timeout_ms start_time w =
     (if fst (millis w) - start_time < timeout_ms then
        (if (hd (fst (transfer h frame [uninit h] 1 (snd (millis w)))) AND msk) = val
         then (True, snd (transfer h frame [uninit h] 1 (snd (millis w))))
         else wait_loop h frame msk val timeout_ms start_time
                (delay h 1 (snd (transfer h frame [uninit h] 1 (snd (millis w))))))
      else (False, snd (millis w)))"
  by pat_completeness auto

definition wait_for_value ::
  "'d hardware \<Rightarrow> Frame \<Rightarrow> 8 word \<Rightarrow> 8 word \<Rightarrow> 32 word \<Rightarrow> 'd world \<Rightarrow> bool \<times> 'd world" where
  "wait_for_value h frame msk val timeout_ms w =
     wait_loop h frame msk val timeout_ms (fst (millis w)) (snd (millis w))"

section \<open>W5500: types and constants\<close>

datatype SocketMode = TCP_Server | TCP_Client | UDP

datatype SocketStatus = Closed | UDP_Open | TCP_Listen | TCP_Connected | Temporary

text \<open>\<^verbatim>\<open>CommonOffsetAddr\<close> and \<^verbatim>\<open>SocketOffsetAddr\<close>, as far as the modelled functions use them.\<close>

abbreviation (input) phy_config :: "16 word" where "phy_config \<equiv> 0x002E"

text \<open>
  The source writes \<^verbatim>\<open>SocketOffsetAddr::socket_mode_register\<close>; the header declares
  the enumerator as \<^verbatim>\<open>mode_register = 0x0000\<close>.
\<close>

abbreviation (input) socket_mode_register :: "16 word" where "socket_mode_register \<equiv> 0x0000"

abbreviation (input) command_register :: "16 word" where "command_register \<equiv> 0x0001"

abbreviation (input) status_register :: "16 word" where "status_register \<equiv> 0x0003"

abbreviation (input) tx_free_size :: "16 word" where "tx_free_size \<equiv> 0x0020"

abbreviation (input) tx_write_pointer :: "16 word" where "tx_write_pointer \<equiv> 0x0024"

abbreviation (input) rx_received_size :: "16 word" where "rx_received_size \<equiv> 0x0026"

abbreviation (input) rx_read_pointer :: "16 word" where "rx_read_pointer \<equiv> 0x0028"

text \<open>\<^verbatim>\<open>SocketCommandReg\<close>.\<close>

abbreviation (input) OPEN :: "8 word" where "OPEN \<equiv> 0x01"

abbreviation (input) LISTEN :: "8 word" where "LISTEN \<equiv> 0x02"

abbreviation (input) CONNECT :: "8 word" where "CONNECT \<equiv> 0x04"

abbreviation (input) DISCONNECT :: "8 word" where "DISCONNECT \<equiv> 0x08"

abbreviation (input) CLOSE :: "8 word" where "CLOSE \<equiv> 0x10"

abbreviation (input) SEND :: "8 word" where "SEND \<equiv> 0x20"

abbreviation (input) RECV :: "8 word" where "RECV \<equiv> 0x40"

text \<open>
  \<^verbatim>\<open>SocketStatusReg\<close>. The status register byte is cast to the enum unchecked, so a
  raw status is any byte.
\<close>

abbreviation (input) SOCK_CLOSED :: "8 word" where "SOCK_CLOSED \<equiv> 0x00"

abbreviation (input) SOCK_INIT :: "8 word" where "SOCK_INIT \<equiv> 0x13"

abbreviation (input) SOCK_LISTEN :: "8 word" where "SOCK_LISTEN \<equiv> 0x14"

abbreviation (input) SOCK_ESTABLISHED :: "8 word" where "SOCK_ESTABLISHED \<equiv> 0x17"

abbreviation (input) SOCK_CLOSE_WAIT :: "8 word" where "SOCK_CLOSE_WAIT \<equiv> 0x1C"

abbreviation (input) SOCK_UDP :: "8 word" where "SOCK_UDP \<equiv> 0x22"

abbreviation (input) socket_mode_register_default :: "8 word" where
  "socket_mode_register_default \<equiv> 0x40"

text \<open>\<^verbatim>\<open>socket_timeout = 3.0\<close> seconds, as the millisecond count \<open>wait_for_value\<close> compares with.\<close>

abbreviation (input) socket_timeout :: "32 word" where "socket_timeout \<equiv> 3000"

section \<open>W5500: register operations\<close>

definition commonReg ::
  "'d hardware \<Rightarrow> 16 word \<Rightarrow> bool \<Rightarrow> 8 word list \<Rightarrow> 16 word \<Rightarrow> 'd world \<Rightarrow> 8 word list \<times> 'd world" where
  "commonReg h offset write data len w =
     transfer h \<lparr>offset_addr = offset, socket_n = 0, bsb = CommonReg,
                 rw = (if write then Write else Read)\<rparr> data len w"

definition socketReg ::
  "'d hardware \<Rightarrow> 8 word \<Rightarrow> 16 word \<Rightarrow> bool \<Rightarrow> 8 word list \<Rightarrow> 16 word \<Rightarrow> 'd world
     \<Rightarrow> 8 word list \<times> 'd world" where
  "socketReg h sn offset write data len w =
     transfer h \<lparr>offset_addr = offset, socket_n = sn, bsb = SocketReg,
                 rw = (if write then Write else Read)\<rparr> data len w"

definition rdCommonReg :: "'d hardware \<Rightarrow> 16 word \<Rightarrow> 'd world \<Rightarrow> 8 word \<times> 'd world" where
  "rdCommonReg h offset w =
     (case commonReg h offset False [uninit h] 1 w of (data, w1) \<Rightarrow> (hd data, w1))"

definition wrSocketReg :: "'d hardware \<Rightarrow> 8 word \<Rightarrow> 16 word \<Rightarrow> 8 word \<Rightarrow> 'd world \<Rightarrow> 'd world" where
  "wrSocketReg h sn offset data w = snd (socketReg h sn offset True [data] 1 w)"

definition wrSocketReg16 :: "'d hardware \<Rightarrow> 8 word \<Rightarrow> 16 word \<Rightarrow> 16 word \<Rightarrow> 'd world \<Rightarrow> 'd world" where
  "wrSocketReg16 h sn offset data w =
     snd (socketReg h sn offset True [ucast (drop_bit 8 data), ucast (data AND 0xFF)] 2 w)"

definition rdSocketReg :: "'d hardware \<Rightarrow> 8 word \<Rightarrow> 16 word \<Rightarrow> 'd world \<Rightarrow> 8 word \<times> 'd world" where
  "rdSocketReg h sn offset w =
     (case socketReg h sn offset False [uninit h] 1 w of (data, w1) \<Rightarrow> (hd data, w1))"

definition rdSocketReg16 :: "'d hardware \<Rightarrow> 8 word \<Rightarrow> 16 word \<Rightarrow> 'd world \<Rightarrow> 16 word \<times> 'd world" where
  "rdSocketReg16 h sn offset w =
     (case socketReg h sn offset False [uninit h, uninit h] 2 w of
        (data, w1) \<Rightarrow> (push_bit 8 (ucast (data ! 0)) OR ucast (data ! 1), w1))"

abbreviation (input) max_tries :: "8 word" where "max_tries \<equiv> 20"

text \<open>The \<^verbatim>\<open>for\<close> loop of \<^verbatim>\<open>rdSocketReg16_atomic\<close>, from the loop test on.\<close>

function atomic_loop ::
  "'d hardware \<Rightarrow> 8 word \<Rightarrow> 16 word \<Rightarrow> 8 word \<Rightarrow> 16 word \<Rightarrow> 'd world \<Rightarrow> 16 word \<times> 'd world" where
  "atomic_loop h sn offset tries last_value w =
     (if tries < max_tries then
        (if 1 \<le> tries \<and> fst (rdSocketReg16 h sn offset w) = last_value
         then rdSocketReg16 h sn offset w
         else atomic_loop h sn offset (tries + 1) (fst (rdSocketReg16 h sn offset w))
                (snd (rdSocketReg16 h sn offset w)))
      else (0, w))"
  by pat_completeness auto

termination
proof (relation "measure (\<lambda>(h, sn, offset, tries, last_value, w). 20 - unat tries)")
  show "wf (measure (\<lambda>(h :: 'd hardware, sn :: 8 word, offset :: 16 word, tries :: 8 word,
                        last_value :: 16 word, w :: 'd world). 20 - unat tries))"
    by simp
next
  fix h :: "'d hardware" and sn tries :: "8 word" and offset last_value :: "16 word"
    and w :: "'d world"
  assume "tries < max_tries"
  then have "unat tries < 20" by (simp add: word_less_nat_alt)
  moreover from this have "unat (tries + 1) = Suc (unat tries)"
    by (simp add: unat_word_ariths)
  ultimately show
    "((h, sn, offset, tries + 1, fst (rdSocketReg16 h sn offset w),
       snd (rdSocketReg16 h sn offset w)),
      (h, sn, offset, tries, last_value, w))
     \<in> measure (\<lambda>(h, sn, offset, tries, last_value, w). 20 - unat tries)"
    by simp
qed

definition rdSocketReg16_atomic ::
  "'d hardware \<Rightarrow> 8 word \<Rightarrow> 16 word \<Rightarrow> 'd world \<Rightarrow> 16 word \<times> 'd world" where
  "rdSocketReg16_atomic h sn offset w = atomic_loop h sn offset 0 0 w"

definition socketCommand :: "'d hardware \<Rightarrow> 8 word \<Rightarrow> 8 word \<Rightarrow> 'd world \<Rightarrow> 'd world" where
  "socketCommand h sn command w = wrSocketReg h sn command_register command w"

definition socketStatusReg :: "'d hardware \<Rightarrow> 8 word \<Rightarrow> 'd world \<Rightarrow> 8 word \<times> 'd world" where
  "socketStatusReg h sn w = rdSocketReg h sn status_register w"

definition waitSocketStatus ::
  "'d hardware \<Rightarrow> 8 word \<Rightarrow> 8 word \<Rightarrow> 32 word \<Rightarrow> 'd world \<Rightarrow> bool \<times> 'd world" where
  "waitSocketStatus h sn status timeout_ms w =
     wait_for_value h \<lparr>offset_addr = status_register, socket_n = sn, bsb = SocketReg, rw = Read\<rparr>
       0xFF status timeout_ms w"

section \<open>W5500: socket management\<close>

definition socketClose :: "'d hardware \<Rightarrow> 8 word \<Rightarrow> 'd world \<Rightarrow> 'd world" where
  "socketClose h sn w =
     (case socketStatusReg h sn w of
        (st, w1) \<Rightarrow>
          if st = SOCK_CLOSED then w1
          else if st = SOCK_ESTABLISHED \<or> st = SOCK_CLOSE_WAIT then
            (case waitSocketStatus h sn SOCK_CLOSED socket_timeout
                    (socketCommand h sn DISCONNECT w1) of
               (ok, w2) \<Rightarrow> if ok then w2 else socketCommand h sn CLOSE w2)
          else socketCommand h sn CLOSE w1)"

fun mode_value :: "SocketMode \<Rightarrow> 8 word" where
  "mode_value TCP_Server = socket_mode_register_default OR 0x01"
| "mode_value TCP_Client = socket_mode_register_default OR 0x01"
| "mode_value UDP = socket_mode_register_default OR 0x02"

text \<open>
  \<^verbatim>\<open>second_command\<close> and \<^verbatim>\<open>expected_state\<close> are assigned in the TCP cases of the first
  \<^verbatim>\<open>switch\<close> only, and read in the TCP cases of the second only.
\<close>

definition socketOpen :: "'d hardware \<Rightarrow> 8 word \<Rightarrow> SocketMode \<Rightarrow> 'd world \<Rightarrow> bool \<times> 'd world" where
  "socketOpen h sn mode w =
     (case rdCommonReg h phy_config w of
        (phy, w0) \<Rightarrow>
          if phy AND 0x01 = 0 then (False, w0)
          else
            (let w1 = socketClose h sn w0;
                 w2 = wrSocketReg h sn socket_mode_register (mode_value mode) w1;
                 w3 = socketCommand h sn OPEN w2
             in case mode of
                  UDP \<Rightarrow>
                    (case waitSocketStatus h sn SOCK_UDP socket_timeout w3 of
                       (ok, w4) \<Rightarrow> if ok then (True, w4) else (False, socketClose h sn w4))
                | _ \<Rightarrow>
                    (case waitSocketStatus h sn SOCK_INIT socket_timeout w3 of
                       (ok1, w4) \<Rightarrow>
                         if ok1 then
                           (case waitSocketStatus h sn
                                   (case mode of TCP_Server \<Rightarrow> SOCK_LISTEN | _ \<Rightarrow> SOCK_ESTABLISHED)
                                   socket_timeout
                                   (socketCommand h sn
                                      (case mode of TCP_Server \<Rightarrow> LISTEN | _ \<Rightarrow> CONNECT) w4) of
                              (ok2, w6) \<Rightarrow>
                                if ok2 then (True, w6) else (False, socketClose h sn w6))
                         else (False, socketClose h sn w4))))"

definition socketKeepOpen :: "'d hardware \<Rightarrow> 8 word \<Rightarrow> SocketMode \<Rightarrow> 'd world \<Rightarrow> 'd world" where
  "socketKeepOpen h sn mode w =
     (case socketStatusReg h sn w of
        (st, w1) \<Rightarrow>
          if st = SOCK_CLOSED \<or> st = SOCK_INIT then snd (socketOpen h sn mode w1)
          else if st = SOCK_LISTEN \<or> st = SOCK_ESTABLISHED then w1
          else if st = SOCK_CLOSE_WAIT then socketCommand h sn DISCONNECT w1
          else if st = SOCK_UDP then w1
          else w1)"

definition socketStatus :: "'d hardware \<Rightarrow> 8 word \<Rightarrow> 'd world \<Rightarrow> SocketStatus \<times> 'd world" where
  "socketStatus h sn w =
     (case socketStatusReg h sn w of
        (st, w1) \<Rightarrow>
          if st = SOCK_CLOSED then (Closed, w1)
          else if st = SOCK_INIT then (Closed, socketCommand h sn CLOSE w1)
          else if st = SOCK_LISTEN then (TCP_Listen, w1)
          else if st = SOCK_ESTABLISHED then (TCP_Connected, w1)
          else if st = SOCK_CLOSE_WAIT then (Closed, socketCommand h sn DISCONNECT w1)
          else if st = SOCK_UDP then (UDP_Open, w1)
          else (Temporary, w1))"

definition socketConnected :: "'d hardware \<Rightarrow> 8 word \<Rightarrow> 'd world \<Rightarrow> bool \<times> 'd world" where
  "socketConnected h sn w =
     (case socketStatus h sn w of
        (s, w1) \<Rightarrow> (case s of TCP_Connected \<Rightarrow> True | UDP_Open \<Rightarrow> True | _ \<Rightarrow> False, w1))"

section \<open>W5500: send and receive\<close>

definition sendAvailable :: "'d hardware \<Rightarrow> 8 word \<Rightarrow> 'd world \<Rightarrow> 16 word \<times> 'd world" where
  "sendAvailable h sn w =
     (case socketConnected h sn w of
        (c, w1) \<Rightarrow> if c then rdSocketReg16_atomic h sn tx_free_size w1 else (0, w1))"

definition receiveAvailable :: "'d hardware \<Rightarrow> 8 word \<Rightarrow> 'd world \<Rightarrow> 16 word \<times> 'd world" where
  "receiveAvailable h sn w =
     (case socketConnected h sn w of
        (c, w1) \<Rightarrow> if c then rdSocketReg16_atomic h sn rx_received_size w1 else (0, w1))"

text \<open>
  \<^verbatim>\<open>send\<close> and \<^verbatim>\<open>receive\<close> return the \<^verbatim>\<open>uint16_t\<close> result, the caller's buffer after the
  call, and the world.
\<close>

definition send ::
  "'d hardware \<Rightarrow> 8 word \<Rightarrow> 8 word list \<Rightarrow> 16 word \<Rightarrow> 'd world \<Rightarrow> 16 word \<times> 8 word list \<times> 'd world" where
  "send h sn data len w =
     (case sendAvailable h sn w of
        (avail, w0) \<Rightarrow>
          (let len1 = min len avail in
           if len1 = 0 then (0, data, w0)
           else
             (case rdSocketReg16 h sn tx_write_pointer w0 of
                (write_pointer, w1) \<Rightarrow>
                  (case transfer h \<lparr>offset_addr = write_pointer, socket_n = sn,
                                     bsb = TxBuffer, rw = Write\<rparr> data len1 w1 of
                     (data1, w2) \<Rightarrow>
                       (len1, data1,
                        socketCommand h sn SEND
                          (wrSocketReg16 h sn tx_write_pointer (write_pointer + len1) w2))))))"

text \<open>
  The header's length field \<^verbatim>\<open>((uint16_t)udp_header[6]) << 8 | udp_header[7]\<close> and the
  clamp \<^verbatim>\<open>std::min(len-8, ...)\<close>, computed in \<^verbatim>\<open>int\<close> and stored back into the
  \<^verbatim>\<open>uint16_t len\<close>.
\<close>

definition udp_declared_length :: "8 word list \<Rightarrow> int" where
  "udp_declared_length udp_header =
     uint (push_bit 8 (ucast (udp_header ! 6)) OR ucast (udp_header ! 7) :: 32 word)"

definition udp_payload_len :: "16 word \<Rightarrow> 8 word list \<Rightarrow> 16 word" where
  "udp_payload_len len udp_header =
     word_of_int (min (uint len - 8) (udp_declared_length udp_header))"

text \<open>Steps 2 to 4 of \<^verbatim>\<open>receive\<close>, which both paths share.\<close>

definition receive_data ::
  "'d hardware \<Rightarrow> 8 word \<Rightarrow> 8 word list \<Rightarrow> 16 word \<Rightarrow> 16 word \<Rightarrow> 'd world
     \<Rightarrow> 16 word \<times> 8 word list \<times> 'd world" where
  "receive_data h sn data len read_pointer w =
     (case transfer h \<lparr>offset_addr = read_pointer, socket_n = sn,
                        bsb = RxBuffer, rw = Read\<rparr> data len w of
        (data1, w1) \<Rightarrow>
          (len, data1,
           socketCommand h sn RECV
             (wrSocketReg16 h sn rx_read_pointer (read_pointer + len) w1)))"

definition receive ::
  "'d hardware \<Rightarrow> 8 word \<Rightarrow> 8 word list \<Rightarrow> 16 word \<Rightarrow> bool \<Rightarrow> 'd world
     \<Rightarrow> 16 word \<times> 8 word list \<times> 'd world" where
  "receive h sn data len udpIgnoreHeader w =
     (case receiveAvailable h sn w of
        (avail, w0) \<Rightarrow>
          (let len1 = min len avail in
           if len1 = 0 then (0, data, w0)
           else
             (case rdSocketReg16 h sn rx_read_pointer w0 of
                (read_pointer, w1) \<Rightarrow>
                  if udpIgnoreHeader then
                    (if len1 < 8 then (0, data, w1)
                     else
                       (case transfer h \<lparr>offset_addr = read_pointer, socket_n = sn,
                                          bsb = RxBuffer, rw = Read\<rparr>
                               (replicate 8 (uninit h)) 8 w1 of
                          (udp_header, w2) \<Rightarrow>
                            receive_data h sn data (udp_payload_len len1 udp_header)
                              (read_pointer + 8) w2))
                  else receive_data h sn data len1 read_pointer w1)))"

section \<open>What a call puts on the bus\<close>

text \<open>
  The bytes of one frame as the W5500 expects them: the offset address, high byte first,
  then the control byte. \<open>bus_frame\<close> is the chip-select-bracketed exchange of a
  header and data bytes, as a piece of trace.
\<close>

definition frame_header :: "Frame \<Rightarrow> 8 word list" where
  "frame_header frame =
     [ucast (drop_bit 8 (offset_addr frame)), ucast (offset_addr frame), control_byte frame]"

definition bus_frame :: "Frame \<Rightarrow> 8 word list \<Rightarrow> event list" where
  "bus_frame frame bs =
     DigitalWrite LOW # map Shift (frame_header frame @ bs) @ [DigitalWrite HIGH]"

text \<open>
  The frames of the register layer, as pieces of trace: a one-byte read of the status
  register, a one-byte write of the command register, and the two-byte reads and writes
  of a 16-bit socket register (high byte first). A read shifts out uninitialised bytes.
\<close>

definition socket_frame :: "8 word \<Rightarrow> 16 word \<Rightarrow> ReadWrite \<Rightarrow> Frame" where
  "socket_frame sn offset d = \<lparr>offset_addr = offset, socket_n = sn, bsb = SocketReg, rw = d\<rparr>"

definition status_read :: "'d hardware \<Rightarrow> 8 word \<Rightarrow> event list" where
  "status_read h sn = bus_frame (socket_frame sn status_register Read) [uninit h]"

definition command_write :: "8 word \<Rightarrow> 8 word \<Rightarrow> event list" where
  "command_write sn command = bus_frame (socket_frame sn command_register Write) [command]"

definition reg16_read :: "'d hardware \<Rightarrow> 8 word \<Rightarrow> 16 word \<Rightarrow> event list" where
  "reg16_read h sn offset = bus_frame (socket_frame sn offset Read) [uninit h, uninit h]"

definition reg16_write :: "8 word \<Rightarrow> 16 word \<Rightarrow> 16 word \<Rightarrow> event list" where
  "reg16_write sn offset v =
     bus_frame (socket_frame sn offset Write) [ucast (drop_bit 8 v), ucast v]"

text \<open>
  The read of the PHY configuration register, and the frames of the TX and RX buffer
  transfers at a pointer.
\<close>

definition phy_read :: "'d hardware \<Rightarrow> event list" where
  "phy_read h =
     bus_frame \<lparr>offset_addr = phy_config, socket_n = 0, bsb = CommonReg, rw = Read\<rparr> [uninit h]"

definition tx_frame :: "8 word \<Rightarrow> 16 word \<Rightarrow> Frame" where
  "tx_frame sn pointer = \<lparr>offset_addr = pointer, socket_n = sn, bsb = TxBuffer, rw = Write\<rparr>"

definition rx_frame :: "8 word \<Rightarrow> 16 word \<Rightarrow> Frame" where
  "rx_frame sn pointer = \<lparr>offset_addr = pointer, socket_n = sn, bsb = RxBuffer, rw = Read\<rparr>"

text \<open>
  What the loop of \<open>wait_for_value\<close> puts on the trace when \<open>k\<close> polls miss: each miss
  is a clock read, a one-byte read and a 1 ms sleep; then comes a last clock read,
  followed by the read that hits when the poll succeeds. \<open>status_poll\<close> is the whole
  call for the status register, with the clock read that precedes the loop.
\<close>

definition poll_trace :: "'d hardware \<Rightarrow> Frame \<Rightarrow> nat \<Rightarrow> bool \<Rightarrow> event list" where
  "poll_trace h frame k ok =
     concat (replicate k (ReadMillis # bus_frame frame [uninit h] @ [Delay 1]))
       @ (if ok then ReadMillis # bus_frame frame [uninit h] else [ReadMillis])"

definition status_poll ::
  "'d hardware \<Rightarrow> 8 word \<Rightarrow> 32 word \<Rightarrow> bool \<Rightarrow> event list" where
  "status_poll h sn elapsed ok =
     ReadMillis # poll_trace h (socket_frame sn status_register Read) (unat elapsed) ok"

text \<open>
  The events of the poll primitive: it alone reads the clock and sleeps.
\<close>

fun is_timing :: "event \<Rightarrow> bool" where
  "is_timing ReadMillis = True"
| "is_timing (Delay ms) = True"
| "is_timing (DigitalWrite l) = False"
| "is_timing (Shift b) = False"

text \<open>
  What the device answers: \<open>shift_bytes\<close> runs the device over a sequence of bytes;
  \<open>device_reply\<close> is its answer to the data bytes of a frame, after the chip select and
  the three header bytes.
\<close>

fun shift_bytes :: "'d hardware \<Rightarrow> 8 word list \<Rightarrow> 'd \<Rightarrow> 8 word list \<times> 'd" where
  "shift_bytes h [] d = ([], d)"
| "shift_bytes h (b # bs) d =
     (case spi_shift h b d of
        (r, d1) \<Rightarrow> (case shift_bytes h bs d1 of (rs, d2) \<Rightarrow> (r # rs, d2)))"

definition device_reply :: "'d hardware \<Rightarrow> Frame \<Rightarrow> 8 word list \<Rightarrow> 'd \<Rightarrow> 8 word list" where
  "device_reply h frame bs d =
     fst (shift_bytes h bs (snd (shift_bytes h (frame_header frame) (spi_select h d))))"

section \<open>Reference definitions for the claims\<close>

text \<open>
  The status table of the specification: the external status of a raw status byte, and
  the command that the status read issues as maintenance.
\<close>

definition external_status :: "8 word \<Rightarrow> SocketStatus" where
  "external_status raw =
     (if raw = 0x00 then Closed
      else if raw = 0x13 then Closed
      else if raw = 0x14 then TCP_Listen
      else if raw = 0x17 then TCP_Connected
      else if raw = 0x1C then Closed
      else if raw = 0x22 then UDP_Open
      else Temporary)"

definition maintenance_command :: "8 word \<Rightarrow> 8 word option" where
  "maintenance_command raw =
     (if raw = 0x13 then Some CLOSE else if raw = 0x1C then Some DISCONNECT else None)"

definition maintenance :: "'d hardware \<Rightarrow> 8 word \<Rightarrow> 8 word \<Rightarrow> 'd world \<Rightarrow> 'd world" where
  "maintenance h sn raw w =
     (case maintenance_command raw of None \<Rightarrow> w | Some c \<Rightarrow> socketCommand h sn c w)"

definition maintenance_trace :: "8 word \<Rightarrow> 8 word \<Rightarrow> event list" where
  "maintenance_trace sn raw =
     (case maintenance_command raw of None \<Rightarrow> [] | Some c \<Rightarrow> command_write sn c)"

text \<open>
  The values \<open>k\<close> successive reads of a 16-bit socket register return, and the world
  after them.
\<close>

fun read_values :: "'d hardware \<Rightarrow> 8 word \<Rightarrow> 16 word \<Rightarrow> nat \<Rightarrow> 'd world \<Rightarrow> 16 word list" where
  "read_values h sn offset 0 w = []"
| "read_values h sn offset (Suc k) w =
     fst (rdSocketReg16 h sn offset w)
       # read_values h sn offset k (snd (rdSocketReg16 h sn offset w))"

fun after_reads :: "'d hardware \<Rightarrow> 8 word \<Rightarrow> 16 word \<Rightarrow> nat \<Rightarrow> 'd world \<Rightarrow> 'd world" where
  "after_reads h sn offset 0 w = w"
| "after_reads h sn offset (Suc k) w =
     after_reads h sn offset k (snd (rdSocketReg16 h sn offset w))"

text \<open>
  The stability scan of the specification over a list of read values: from the second
  value on, the first value equal to its predecessor is returned, with the number of
  values consumed; 0 when the list ends first. \<open>prev\<close> is the value read before, if any.
\<close>

fun stable_scan :: "16 word option \<Rightarrow> 16 word list \<Rightarrow> 16 word \<times> nat" where
  "stable_scan prev [] = (0, 0)"
| "stable_scan prev (v # vs) =
     (if prev = Some v then (v, 1)
      else (fst (stable_scan (Some v) vs), Suc (snd (stable_scan (Some v) vs))))"

definition read_atomic16 :: "16 word list \<Rightarrow> 16 word" where
  "read_atomic16 vs = fst (stable_scan None vs)"

definition reads_used :: "16 word list \<Rightarrow> nat" where
  "reads_used vs = snd (stable_scan None vs)"

text \<open>
  The trace of an availability query: the status read, then the reads of the counter
  when the socket is connected, else the maintenance command.
\<close>

definition counter_reads :: "'d hardware \<Rightarrow> 8 word \<Rightarrow> 16 word \<Rightarrow> 'd world \<Rightarrow> event list" where
  "counter_reads h sn offset w =
     concat (replicate (reads_used (read_values h sn offset 20 w)) (reg16_read h sn offset))"

definition available_trace :: "'d hardware \<Rightarrow> 8 word \<Rightarrow> 16 word \<Rightarrow> 'd world \<Rightarrow> event list" where
  "available_trace h sn offset w =
     status_read h sn
       @ (if fst (socketStatusReg h sn w) = 0x17 \<or> fst (socketStatusReg h sn w) = 0x22
          then counter_reads h sn offset (snd (socketStatusReg h sn w))
          else maintenance_trace sn (fst (socketStatusReg h sn w)))"

text \<open>
  The stages of \<open>socketOpen\<close>: the status that ends a successful open, the command
  after Init, and the world in which the first poll starts (link up, socket closed, mode
  written, OPEN issued).
\<close>

definition terminal_status :: "SocketMode \<Rightarrow> 8 word" where
  "terminal_status mode =
     (case mode of UDP \<Rightarrow> SOCK_UDP | TCP_Server \<Rightarrow> SOCK_LISTEN | TCP_Client \<Rightarrow> SOCK_ESTABLISHED)"

definition second_command :: "SocketMode \<Rightarrow> 8 word" where
  "second_command mode = (case mode of TCP_Server \<Rightarrow> LISTEN | _ \<Rightarrow> CONNECT)"

definition open_issued :: "'d hardware \<Rightarrow> 8 word \<Rightarrow> SocketMode \<Rightarrow> 'd world \<Rightarrow> 'd world" where
  "open_issued h sn mode w =
     socketCommand h sn OPEN
       (wrSocketReg h sn socket_mode_register (mode_value mode)
          (socketClose h sn (snd (rdCommonReg h phy_config w))))"

section \<open>Devices for concrete runs\<close>

text \<open>
  A small register-file device that decodes the frame header, stores what is written,
  answers reads from its registers and reacts to the socket commands: CLOSE closes the
  socket at once, and so does DISCONNECT unless the peer is silent; OPEN, LISTEN and
  CONNECT take effect when the next millisecond passes. It serves the concrete runs
  below; no general statement depends on it.
\<close>

record sim =
  frame_in :: "8 word list"
  regs :: "8 word \<times> 16 word \<Rightarrow> 8 word"
  later :: "((8 word \<times> 16 word) \<times> 8 word) option"

text \<open>
  A key no frame can address (a block key has its low three bits clear). A nonzero value
  there means that the TCP peer never answers: DISCONNECT then leaves the socket in
  FIN_WAIT (0x18) instead of closing it.
\<close>

abbreviation (input) peer_silent :: "8 word \<times> 16 word" where "peer_silent \<equiv> (0xFF, 0x0000)"

definition sim_command :: "8 word \<Rightarrow> 8 word \<Rightarrow> sim \<Rightarrow> sim" where
  "sim_command blk command d =
     (if command = OPEN then
        d\<lparr>later := Some ((blk, status_register),
                 if regs d (blk, socket_mode_register) AND 0x0F = 0x01 then SOCK_INIT
                 else if regs d (blk, socket_mode_register) AND 0x0F = 0x02 then SOCK_UDP
                 else SOCK_CLOSED)\<rparr>
      else if command = LISTEN then d\<lparr>later := Some ((blk, status_register), SOCK_LISTEN)\<rparr>
      else if command = CONNECT then d\<lparr>later := Some ((blk, status_register), SOCK_ESTABLISHED)\<rparr>
      else if command = DISCONNECT \<and> regs d peer_silent \<noteq> 0 then
        d\<lparr>regs := (regs d)((blk, status_register) := 0x18), later := None\<rparr>
      else if command = DISCONNECT \<or> command = CLOSE then
        d\<lparr>regs := (regs d)((blk, status_register) := SOCK_CLOSED), later := None\<rparr>
      else d)"

definition sim_shift :: "8 word \<Rightarrow> sim \<Rightarrow> 8 word \<times> sim" where
  "sim_shift b d =
     (case frame_in d of
        hi # lo # ctl # rest \<Rightarrow>
          (let blk = ctl AND 0xF8;
               addr = (push_bit 8 (ucast hi) OR ucast lo) + of_nat (length rest);
               d1 = d\<lparr>frame_in := frame_in d @ [b]\<rparr>
           in if bit ctl 2 then
                (0, if ctl AND 0x18 = 0x08 \<and> addr = command_register
                    then sim_command blk b d1
                    else d1\<lparr>regs := (regs d)((blk, addr) := b)\<rparr>)
              else (regs d (blk, addr), d1))
      | _ \<Rightarrow> (0, d\<lparr>frame_in := frame_in d @ [b]\<rparr>))"

definition sim_elapse :: "sim \<Rightarrow> sim" where
  "sim_elapse d =
     (case later d of
        None \<Rightarrow> d
      | Some (k, v) \<Rightarrow> d\<lparr>regs := (regs d)(k := v), later := None\<rparr>)"

definition sim_hw :: "sim hardware" where
  "sim_hw = \<lparr>spi_select = (\<lambda>d. d\<lparr>frame_in := []\<rparr>), spi_shift = sim_shift,
             spi_deselect = (\<lambda>d. d), elapse_ms = sim_elapse, uninit = 0xAA\<rparr>"

definition sim_world :: "((8 word \<times> 16 word) \<times> 8 word) list \<Rightarrow> sim world" where
  "sim_world rs =
     \<lparr>dev = \<lparr>frame_in = [], regs = (\<lambda>k. case map_of rs k of None \<Rightarrow> 0 | Some v \<Rightarrow> v), later = None\<rparr>,
      clock = 0, trace = []\<rparr>"

text \<open>
  The same device with a CLOSE that takes effect only when the next millisecond passes,
  as its OPEN does.
\<close>

definition slow_command :: "8 word \<Rightarrow> 8 word \<Rightarrow> sim \<Rightarrow> sim" where
  "slow_command blk command d =
     (if command = CLOSE then d\<lparr>later := Some ((blk, status_register), SOCK_CLOSED)\<rparr>
      else sim_command blk command d)"

definition slow_shift :: "8 word \<Rightarrow> sim \<Rightarrow> 8 word \<times> sim" where
  "slow_shift b d =
     (case frame_in d of
        hi # lo # ctl # rest \<Rightarrow>
          (let blk = ctl AND 0xF8;
               addr = (push_bit 8 (ucast hi) OR ucast lo) + of_nat (length rest);
               d1 = d\<lparr>frame_in := frame_in d @ [b]\<rparr>
           in if bit ctl 2 then
                (0, if ctl AND 0x18 = 0x08 \<and> addr = command_register
                    then slow_command blk b d1
                    else d1\<lparr>regs := (regs d)((blk, addr) := b)\<rparr>)
              else (regs d (blk, addr), d1))
      | _ \<Rightarrow> (0, d\<lparr>frame_in := frame_in d @ [b]\<rparr>))"

definition slow_hw :: "sim hardware" where
  "slow_hw = \<lparr>spi_select = (\<lambda>d. d\<lparr>frame_in := []\<rparr>), spi_shift = slow_shift,
              spi_deselect = (\<lambda>d. d), elapse_ms = sim_elapse, uninit = 0xAA\<rparr>"

text \<open>
  Worlds of the simulated device: the link up and every socket closed; socket 1
  listening; socket 1 established; socket 1 established with a peer that never answers; socket 1 open in
  UDP mode with 2 kB free, the write pointer at 0xFFF8, and one received datagram of five
  bytes whose header starts at 0xFFFC and wraps around the end of the address space.
\<close>

definition sim_link_up :: "sim world" where
  "sim_link_up = sim_world [((0x00, phy_config), 0x01)]"

definition sim_listening :: "sim world" where
  "sim_listening = sim_world [((0x00, phy_config), 0x01), ((0x28, status_register), SOCK_LISTEN)]"

definition sim_established :: "sim world" where
  "sim_established = sim_world [((0x00, phy_config), 0x01), ((0x28, status_register), SOCK_ESTABLISHED)]"

definition sim_silent_peer :: "sim world" where
  "sim_silent_peer =
     sim_world [((0x00, phy_config), 0x01), ((0x28, status_register), SOCK_ESTABLISHED),
                (peer_silent, 0x01)]"

definition sim_udp_socket :: "sim world" where
  "sim_udp_socket =
     sim_world [((0x28, status_register), SOCK_UDP),
                ((0x28, 0x0020), 0x08), ((0x28, 0x0021), 0x00),
                ((0x28, 0x0024), 0xFF), ((0x28, 0x0025), 0xF8),
                ((0x28, 0x0026), 0x00), ((0x28, 0x0027), 0x0D),
                ((0x28, 0x0028), 0xFF), ((0x28, 0x0029), 0xFC),
                ((0x38, 0xFFFC), 192), ((0x38, 0xFFFD), 168), ((0x38, 0xFFFE), 0), ((0x38, 0xFFFF), 7),
                ((0x38, 0x0000), 0x1F), ((0x38, 0x0001), 0x90), ((0x38, 0x0002), 0x00), ((0x38, 0x0003), 0x05),
                ((0x38, 0x0004), 0x68), ((0x38, 0x0005), 0x65), ((0x38, 0x0006), 0x6C),
                ((0x38, 0x0007), 0x6C), ((0x38, 0x0008), 0x6F)]"

text \<open>
  Socket 1 in FIN_WAIT with nothing pending: the state in which the device with a
  silent peer stays after DISCONNECT.
\<close>

definition fin_wait :: "sim \<Rightarrow> bool" where
  "fin_wait d \<longleftrightarrow> regs d (0x28, status_register) = 0x18 \<and> later d = None"

text \<open>
  A device that answers the bytes of a script, one per byte shifted, whatever is sent:
  \<open>script_reads\<close> scripts the answers to a sequence of two-byte register reads.
\<close>

definition script_hw :: "8 word list hardware" where
  "script_hw = \<lparr>spi_select = (\<lambda>d. d),
                spi_shift = (\<lambda>b d. case d of [] \<Rightarrow> (0, []) | x # xs \<Rightarrow> (x, xs)),
                spi_deselect = (\<lambda>d. d), elapse_ms = (\<lambda>d. d), uninit = 0\<rparr>"

definition script_reads :: "16 word list \<Rightarrow> 8 word list world" where
  "script_reads vs =
     \<lparr>dev = concat (map (\<lambda>v. [0, 0, 0, ucast (drop_bit 8 v), ucast v]) vs),
      clock = 0, trace = []\<rparr>"

definition reads_repeat_5_6 :: "16 word list" where
  "reads_repeat_5_6 = [1, 2, 3, 4, 5, 5, 7, 8, 9, 10, 11, 12, 13, 14, 15, 16, 17, 18, 19, 20]"

definition reads_no_repeat :: "16 word list" where
  "reads_no_repeat = [1, 2, 3, 4, 5, 6, 7, 8, 9, 10, 11, 12, 13, 14, 15, 16, 17, 18, 19, 20]"

section \<open>The platform calls: clock, trace and length\<close>

lemma clock_digitalWrite_cs [simp]: "clock (digitalWrite_cs h l w) = clock w"
  by (simp add: digitalWrite_cs_def)

lemma trace_digitalWrite_cs [simp]:
  "trace (digitalWrite_cs h l w) = trace w @ [DigitalWrite l]"
  by (simp add: digitalWrite_cs_def)

lemma clock_SPI_transfer [simp]: "clock (snd (SPI_transfer h b w)) = clock w"
  by (simp add: SPI_transfer_def case_prod_beta)

lemma trace_SPI_transfer [simp]: "trace (snd (SPI_transfer h b w)) = trace w @ [Shift b]"
  by (simp add: SPI_transfer_def case_prod_beta)

lemma clock_SPI_transfer16 [simp]: "clock (snd (SPI_transfer16 h v w)) = clock w"
  by (simp add: SPI_transfer16_def case_prod_beta)

lemma trace_SPI_transfer16 [simp]:
  "trace (snd (SPI_transfer16 h v w)) = trace w @ [Shift (ucast (drop_bit 8 v)), Shift (ucast v)]"
  by (simp add: SPI_transfer16_def case_prod_beta)

lemma clock_SPI_transfer_buf [simp]: "clock (snd (SPI_transfer_buf h bs w)) = clock w"
  by (induction bs arbitrary: w) (simp_all add: case_prod_beta)

lemma trace_SPI_transfer_buf [simp]:
  "trace (snd (SPI_transfer_buf h bs w)) = trace w @ map Shift bs"
  by (induction bs arbitrary: w) (simp_all add: case_prod_beta)

lemma length_SPI_transfer_buf [simp]: "length (fst (SPI_transfer_buf h bs w)) = length bs"
  by (induction bs arbitrary: w) (simp_all add: case_prod_beta)

lemma clock_transfer [simp]: "clock (snd (transfer h frame data len w)) = clock w"
  by (simp add: transfer_def Let_def case_prod_beta)

lemma trace_transfer [simp]:
  "trace (snd (transfer h frame data len w)) = trace w @ bus_frame frame (take (unat len) data)"
  by (simp add: transfer_def Let_def case_prod_beta bus_frame_def frame_header_def)

lemma length_transfer [simp]: "length (fst (transfer h frame data len w)) = length data"
  by (simp add: transfer_def Let_def case_prod_beta)

lemma clock_millis [simp]: "clock (snd (millis w)) = clock w" "fst (millis w) = clock w"
  by (simp_all add: millis_def)

lemma clock_delay [simp]: "clock (delay h ms w) = clock w + ms"
  by (simp add: delay_def)

section \<open>The poll loop terminates\<close>

lemma elapsed_step:
  fixes c s t :: "32 word"
  assumes "c - s < t"
  shows "unat (c + 1 - s) = Suc (unat (c - s))"
proof -
  have "unat (c - s) < unat t" using assms by (simp add: word_less_nat_alt)
  moreover have "unat t < 2 ^ 32" using unsigned_less [of t, where ?'a = nat] by simp
  ultimately have "unat (c - s) + 1 < 2 ^ 32" by simp
  then have u: "unat (c - s + 1) = Suc (unat (c - s))"
    by (simp add: unat_word_ariths)
  have e: "c + 1 - s = c - s + 1" by simp
  show ?thesis by (simp only: e u)
qed

termination wait_loop
proof (relation "measure (\<lambda>(h, frame, msk, val, timeout_ms, start_time, w).
                  unat timeout_ms - unat (clock w - start_time))")
  show "wf (measure (\<lambda>(h :: 'd hardware, frame :: Frame, msk :: 8 word, val :: 8 word,
                        timeout_ms :: 32 word, start_time :: 32 word, w :: 'd world).
              unat timeout_ms - unat (clock w - start_time)))"
    by simp
next
  fix h :: "'d hardware" and frame :: Frame and msk val :: "8 word"
    and timeout_ms start_time :: "32 word" and w :: "'d world"
  assume a: "fst (millis w) - start_time < timeout_ms"
  then have lt: "clock w - start_time < timeout_ms" by simp
  have "unat (clock w + 1 - start_time) = Suc (unat (clock w - start_time))"
    using lt by (rule elapsed_step)
  moreover have "unat (clock w - start_time) < unat timeout_ms"
    using lt by (simp add: word_less_nat_alt)
  ultimately show
    "((h, frame, msk, val, timeout_ms, start_time,
       delay h 1 (snd (transfer h frame [uninit h] 1 (snd (millis w))))),
      (h, frame, msk, val, timeout_ms, start_time, w))
     \<in> measure (\<lambda>(h, frame, msk, val, timeout_ms, start_time, w).
                  unat timeout_ms - unat (clock w - start_time))"
    by simp
qed

declare wait_loop.simps [simp del]

declare atomic_loop.simps [simp del]

section \<open>The trace and the clock of a poll\<close>

lemma trace_millis [simp]: "trace (snd (millis w)) = trace w @ [ReadMillis]"
  by (simp add: millis_def)

lemma trace_delay [simp]: "trace (delay h ms w) = trace w @ [Delay ms]"
  by (simp add: delay_def)

lemma take_one_byte [simp]: "take (unat (1 :: 16 word)) [b] = [b]"
  by simp

lemma wait_loop_run:
  "wait_loop h frame msk val t s w = (ok, w') \<Longrightarrow> unat (clock w - s) \<le> unat t \<Longrightarrow>
   \<exists>k. trace w' = trace w @ poll_trace h frame k ok
     \<and> clock w' = clock w + of_nat k
     \<and> (if ok then unat (clock w - s) + k < unat t else unat (clock w - s) + k = unat t)"
proof (induction h frame msk val t s w rule: wait_loop.induct)
  case (1 h frame msk val t s w)
  let ?w2 = "snd (transfer h frame [uninit h] 1 (snd (millis w)))"
  let ?d = "hd (fst (transfer h frame [uninit h] 1 (snd (millis w))))"
  show ?case
  proof (cases "clock w - s < t")
    case False
    with "1.prems" have r: "ok = False" "w' = snd (millis w)"
      by (simp_all add: wait_loop.simps [of h frame msk val t s w])
    from False "1.prems"(2) have "unat (clock w - s) = unat t"
      by (simp add: word_less_nat_alt)
    with r show ?thesis
      by (intro exI [of _ 0]) (simp add: poll_trace_def)
  next
    case lt: True
    show ?thesis
    proof (cases "?d AND msk = val")
      case True
      with lt "1.prems" have r: "ok = True" "w' = ?w2"
        by (simp_all add: wait_loop.simps [of h frame msk val t s w])
      from lt have "unat (clock w - s) < unat t" by (simp add: word_less_nat_alt)
      with r show ?thesis
        by (intro exI [of _ 0]) (simp add: poll_trace_def)
    next
      case False
      with lt "1.prems" have rec: "wait_loop h frame msk val t s (delay h 1 ?w2) = (ok, w')"
        by (simp add: wait_loop.simps [of h frame msk val t s w])
      have step: "unat (clock w + 1 - s) = Suc (unat (clock w - s))"
        using lt by (rule elapsed_step)
      from lt have lt': "unat (clock w - s) < unat t" by (simp add: word_less_nat_alt)
      have "unat (clock (delay h 1 ?w2) - s) \<le> unat t"
        using step lt' by simp
      from "1.IH" [OF _ False rec this] lt
      obtain k where k: "trace w' = trace (delay h 1 ?w2) @ poll_trace h frame k ok"
        "clock w' = clock (delay h 1 ?w2) + of_nat k"
        "if ok then unat (clock (delay h 1 ?w2) - s) + k < unat t
         else unat (clock (delay h 1 ?w2) - s) + k = unat t"
        by auto
      show ?thesis
      proof (intro exI [of _ "Suc k"] conjI)
        show "trace w' = trace w @ poll_trace h frame (Suc k) ok"
          using k(1) by (simp add: poll_trace_def)
        show "clock w' = clock w + of_nat (Suc k)"
          using k(2) by simp
        show "if ok then unat (clock w - s) + Suc k < unat t
              else unat (clock w - s) + Suc k = unat t"
          using k(3) step by (simp split: if_splits)
      qed
    qed
  qed
qed

section \<open>The device's answer and the control byte\<close>

lemma dev_digitalWrite_cs [simp]:
  "dev (digitalWrite_cs h LOW w) = spi_select h (dev w)"
  "dev (digitalWrite_cs h HIGH w) = spi_deselect h (dev w)"
  by (simp_all add: digitalWrite_cs_def)

lemma SPI_transfer_buf_shift_bytes:
  "fst (SPI_transfer_buf h bs w) = fst (shift_bytes h bs (dev w))"
  "dev (snd (SPI_transfer_buf h bs w)) = snd (shift_bytes h bs (dev w))"
  by (induction bs arbitrary: w) (simp_all add: case_prod_beta SPI_transfer_def)

lemma dev_header:
  "dev (snd (SPI_transfer h (control_byte frame)
              (snd (SPI_transfer16 h (offset_addr frame) w))))
   = snd (shift_bytes h (frame_header frame) (dev w))"
  by (simp add: frame_header_def SPI_transfer16_def SPI_transfer_def case_prod_beta)

lemma fst_transfer:
  "fst (transfer h frame data len w)
   = device_reply h frame (take (unat len) data) (dev w) @ drop (unat len) data"
  by (simp add: transfer_def Let_def case_prod_beta device_reply_def
        SPI_transfer_buf_shift_bytes dev_header)

lemma control_byte_bits:
  "control_byte frame =
     push_bit 3 (push_bit 2 (socket_n frame) OR ucast (bsb_value (bsb frame)))
       OR push_bit 2 (ucast (rw_value (rw frame)))"
  apply (simp add: control_byte_def control_int_def)
  apply (rule bit_word_eqI)
  apply (auto simp add: bit_simps)
  done

lemmas sim_defs = sim_hw_def sim_shift_def sim_command_def sim_elapse_def sim_world_def

lemma bit_int_4: "bit (4 :: int) n \<longleftrightarrow> n = 2"
proof -
  have "bit (push_bit 2 (1 :: int)) n \<longleftrightarrow> n = 2"
    by (simp only: bit_push_bit_iff bit_1_iff) auto
  then show ?thesis by simp
qed

lemma bit_int_255: "bit (255 :: int) n \<longleftrightarrow> n < 8"
proof -
  have "bit (mask 8 :: int) n \<longleftrightarrow> n < 8"
    by (simp only: bit_mask_iff) auto
  then show ?thesis by (simp add: mask_eq_exp_minus_1)
qed

lemma ucast_and_FF [simp]: "(ucast (v AND 0xFF :: 16 word) :: 8 word) = ucast v"
  by (rule bit_word_eqI) (auto simp add: bit_simps bit_int_255)

lemma push_bit_3_and_4: "push_bit 3 (x :: 8 word) AND 4 = 0"
  by (rule bit_word_eqI) (auto simp add: bit_simps bit_int_4)

lemma word16_bytes: "push_bit 8 (ucast (ucast (drop_bit 8 v) :: 8 word)) OR ucast (ucast v :: 8 word) = (v :: 16 word)"
  by (rule bit_word_eqI) (auto simp add: bit_simps)

lemma trace_socketReg [simp]:
  "trace (snd (socketReg h sn offset write data len w))
   = trace w @ bus_frame (socket_frame sn offset (if write then Write else Read)) (take (unat len) data)"
  by (simp add: socketReg_def socket_frame_def)

lemma clock_socketReg [simp]: "clock (snd (socketReg h sn offset write data len w)) = clock w"
  by (simp add: socketReg_def)

lemma length_socketReg [simp]: "length (fst (socketReg h sn offset write data len w)) = length data"
  by (simp add: socketReg_def)

section \<open>SpiFrame::transfer\<close>

text \<open>
  Claim C8. For every frame descriptor and every buffer holding at least \<open>len\<close> bytes,
  \<open>transfer\<close> selects the device, shifts out the offset address high byte first, then
  the control byte \<open>((socket_n << 2) | bsb) << 3 | (rw << 2)\<close>, then exactly \<open>len\<close>
  bytes of the buffer, and deselects; the first \<open>len\<close> bytes of the buffer are replaced
  by what the device answered, whatever the direction; the direction only sets bit 2 of
  the control byte.
\<close>

theorem transfer_bus_exchange:
  assumes "unat len \<le> length data"
  shows "trace (snd (transfer h frame data len w))
           = trace w @ [DigitalWrite LOW,
                        Shift (ucast (drop_bit 8 (offset_addr frame))),
                        Shift (ucast (offset_addr frame)),
                        Shift (push_bit 3 (push_bit 2 (socket_n frame) OR ucast (bsb_value (bsb frame)))
                                 OR push_bit 2 (ucast (rw_value (rw frame))))]
               @ map Shift (take (unat len) data) @ [DigitalWrite HIGH]
         \<and> length (take (unat len) data) = unat len
         \<and> fst (transfer h frame data len w)
             = device_reply h frame (take (unat len) data) (dev w) @ drop (unat len) data
         \<and> length (device_reply h frame (take (unat len) data) (dev w)) = unat len
         \<and> frame_header (frame\<lparr>rw := Write\<rparr>)
             = (frame_header (frame\<lparr>rw := Read\<rparr>))[2 := control_byte (frame\<lparr>rw := Read\<rparr>) OR 4]
         \<and> control_byte (frame\<lparr>rw := Read\<rparr>) AND 4 = 0"
proof -
  have len: "length (take (unat len) data) = unat len" using assms by simp
  have "length (fst (transfer h frame data len w)) = length data" by simp
  then have "length (device_reply h frame (take (unat len) data) (dev w)) + (length data - unat len)
               = length data"
    by (simp add: fst_transfer)
  then have rep: "length (device_reply h frame (take (unat len) data) (dev w)) = unat len"
    using assms by simp
  have rd: "control_byte (frame\<lparr>rw := Read\<rparr>) AND 4 = 0"
    using push_bit_3_and_4 [of "push_bit 2 (socket_n frame) OR ucast (bsb_value (bsb frame))"]
    by (simp add: control_byte_bits)
  have wr: "control_byte (frame\<lparr>rw := Write\<rparr>) = control_byte (frame\<lparr>rw := Read\<rparr>) OR 4"
    by (simp add: control_byte_bits)
  show ?thesis
    using len rep rd wr
    by (simp add: bus_frame_def frame_header_def control_byte_bits fst_transfer)
qed

theorem transfer_bus_exchange_witness:
  "unat (2 :: 16 word) \<le> length [1, 2, 3 :: 8 word]
   \<and> trace (snd (transfer sim_hw \<lparr>offset_addr = 0x0124, socket_n = 3, bsb = TxBuffer, rw = Write\<rparr>
                    [1, 2, 3] 2 (sim_world [])))
       = [DigitalWrite LOW, Shift 0x01, Shift 0x24, Shift 0x74, Shift 1, Shift 2, DigitalWrite HIGH]
   \<and> fst (transfer sim_hw \<lparr>offset_addr = 0x0124, socket_n = 3, bsb = TxBuffer, rw = Read\<rparr>
             [1, 2, 3] 2 (sim_world [((0x70, 0x0124), 7), ((0x70, 0x0125), 9)]))
       = [7, 9, 3]"
proof -
  have h: "unat (2 :: 16 word) \<le> length [1, 2, 3 :: 8 word]" by simp
  have a: "device_reply sim_hw \<lparr>offset_addr = 0x0124, socket_n = 3, bsb = TxBuffer, rw = Read\<rparr>
             [1, 2] (dev (sim_world [((0x70, 0x0124), 7), ((0x70, 0x0125), 9)])) = [7, 9]"
    by (simp add: device_reply_def frame_header_def control_byte_def control_int_def sim_defs Let_def)
  show ?thesis
    using h a
      transfer_bus_exchange [OF h, of sim_hw
        "\<lparr>offset_addr = 0x0124, socket_n = 3, bsb = TxBuffer, rw = Write\<rparr>" "sim_world []"]
      transfer_bus_exchange [OF h, of sim_hw
        "\<lparr>offset_addr = 0x0124, socket_n = 3, bsb = TxBuffer, rw = Read\<rparr>"
        "sim_world [((0x70, 0x0124), 7), ((0x70, 0x0125), 9)]"]
    by (simp add: sim_world_def)
qed

section \<open>16-bit registers\<close>

text \<open>
  Claim C10. On a device that answers a two-byte read of a socket register with the two
  bytes last written to it, writing \<open>v\<close> with \<open>wrSocketReg16\<close> and reading the same
  register with \<open>rdSocketReg16\<close> yields \<open>v\<close>.
\<close>

theorem reg16_round_trip:
  assumes "\<And>w b0 b1. fst (socketReg h sn offset False [uninit h, uninit h] 2
                            (snd (socketReg h sn offset True [b0, b1] 2 w))) = [b0, b1]"
  shows "fst (rdSocketReg16 h sn offset (wrSocketReg16 h sn offset v w)) = v"
  by (simp add: rdSocketReg16_def wrSocketReg16_def case_prod_beta assms word16_bytes)

lemma sim_reads_back:
  "fst (socketReg sim_hw 1 tx_write_pointer False [uninit sim_hw, uninit sim_hw] 2
          (snd (socketReg sim_hw 1 tx_write_pointer True [b0, b1] 2 w))) = [b0, b1]"
  by (simp add: socketReg_def fst_transfer device_reply_def frame_header_def control_byte_def
        control_int_def transfer_def SPI_transfer16_def SPI_transfer_def digitalWrite_cs_def
        sim_hw_def sim_shift_def Let_def)

theorem reg16_round_trip_witness:
  "(\<forall>w b0 b1. fst (socketReg sim_hw 1 tx_write_pointer False [uninit sim_hw, uninit sim_hw] 2
                      (snd (socketReg sim_hw 1 tx_write_pointer True [b0, b1] 2 w))) = [b0, b1])
   \<and> fst (rdSocketReg16 sim_hw 1 tx_write_pointer
             (wrSocketReg16 sim_hw 1 tx_write_pointer 0xFFF8 (sim_world []))) = 0xFFF8"
  using reg16_round_trip [where h = sim_hw and sn = 1 and offset = tx_write_pointer
      and v = "0xFFF8" and w = "sim_world []", OF sim_reads_back]
    sim_reads_back
  by simp

section \<open>Register operations: clock and trace\<close>

lemma clock_commonReg [simp]: "clock (snd (commonReg h offset write data len w)) = clock w"
  by (simp add: commonReg_def)

lemma trace_rdCommonReg [simp]:
  "trace (snd (rdCommonReg h offset w))
   = trace w @ bus_frame \<lparr>offset_addr = offset, socket_n = 0, bsb = CommonReg, rw = Read\<rparr> [uninit h]"
  by (simp add: rdCommonReg_def commonReg_def case_prod_beta)

lemma clock_rdCommonReg [simp]: "clock (snd (rdCommonReg h offset w)) = clock w"
  by (simp add: rdCommonReg_def case_prod_beta)

lemma trace_rdSocketReg [simp]:
  "trace (snd (rdSocketReg h sn offset w))
   = trace w @ bus_frame (socket_frame sn offset Read) [uninit h]"
  by (simp add: rdSocketReg_def case_prod_beta)

lemma clock_rdSocketReg [simp]: "clock (snd (rdSocketReg h sn offset w)) = clock w"
  by (simp add: rdSocketReg_def case_prod_beta)

lemma trace_wrSocketReg [simp]:
  "trace (wrSocketReg h sn offset b w) = trace w @ bus_frame (socket_frame sn offset Write) [b]"
  by (simp add: wrSocketReg_def)

lemma clock_wrSocketReg [simp]: "clock (wrSocketReg h sn offset b w) = clock w"
  by (simp add: wrSocketReg_def)

lemma take_two_bytes [simp]: "take (unat (2 :: 16 word)) [a, b] = [a, b]"
  by simp

lemma trace_wrSocketReg16 [simp]:
  "trace (wrSocketReg16 h sn offset v w) = trace w @ reg16_write sn offset v"
  by (simp add: wrSocketReg16_def reg16_write_def)

lemma clock_wrSocketReg16 [simp]: "clock (wrSocketReg16 h sn offset v w) = clock w"
  by (simp add: wrSocketReg16_def)

lemma trace_rdSocketReg16 [simp]:
  "trace (snd (rdSocketReg16 h sn offset w)) = trace w @ reg16_read h sn offset"
  by (simp add: rdSocketReg16_def reg16_read_def case_prod_beta)

lemma clock_rdSocketReg16 [simp]: "clock (snd (rdSocketReg16 h sn offset w)) = clock w"
  by (simp add: rdSocketReg16_def case_prod_beta)

lemma trace_socketCommand [simp]:
  "trace (socketCommand h sn command w) = trace w @ command_write sn command"
  by (simp add: socketCommand_def command_write_def)

lemma clock_socketCommand [simp]: "clock (socketCommand h sn command w) = clock w"
  by (simp add: socketCommand_def)

lemma trace_socketStatusReg [simp]:
  "trace (snd (socketStatusReg h sn w)) = trace w @ status_read h sn"
  by (simp add: socketStatusReg_def status_read_def)

lemma clock_socketStatusReg [simp]: "clock (snd (socketStatusReg h sn w)) = clock w"
  by (simp add: socketStatusReg_def)

section \<open>socketStatus\<close>

lemma socketStatus_eq:
  "socketStatus h sn w
   = (external_status (fst (socketStatusReg h sn w)),
      maintenance h sn (fst (socketStatusReg h sn w)) (snd (socketStatusReg h sn w)))"
  by (simp add: socketStatus_def external_status_def maintenance_def maintenance_command_def
        case_prod_beta)

lemma trace_maintenance [simp]:
  "trace (maintenance h sn raw w) = trace w @ maintenance_trace sn raw"
  by (simp add: maintenance_def maintenance_trace_def split: option.splits)

lemma clock_maintenance [simp]: "clock (maintenance h sn raw w) = clock w"
  by (simp add: maintenance_def split: option.splits)

text \<open>
  Claim C4. \<open>socketStatus\<close> reads the raw status byte once and maps it to the external
  status: Init (0x13) issues the CLOSE command and reports Closed; CloseWait (0x1C) issues
  the DISCONNECT command, without waiting, and reports Closed; Closed (0x00), Listening
  (0x14), Established (0x17) and UDP-active (0x22) report Closed, TCP_Listen,
  TCP_Connected and UDP_Open; every other byte reports Temporary; and in all cases but
  Init and CloseWait nothing is put on the bus after the status read.
\<close>

theorem socketStatus_mapping:
  "fst (socketStatus h sn w) = external_status (fst (socketStatusReg h sn w))
   \<and> snd (socketStatus h sn w)
       = maintenance h sn (fst (socketStatusReg h sn w)) (snd (socketStatusReg h sn w))
   \<and> trace (snd (socketStatus h sn w))
       = trace w @ status_read h sn @ maintenance_trace sn (fst (socketStatusReg h sn w))
   \<and> clock (snd (socketStatus h sn w)) = clock w
   \<and> external_status 0x13 = Closed \<and> maintenance_trace sn 0x13 = command_write sn CLOSE
   \<and> external_status 0x1C = Closed \<and> maintenance_trace sn 0x1C = command_write sn DISCONNECT
   \<and> external_status 0x00 = Closed \<and> maintenance_trace sn 0x00 = []
   \<and> external_status 0x14 = TCP_Listen \<and> maintenance_trace sn 0x14 = []
   \<and> external_status 0x17 = TCP_Connected \<and> maintenance_trace sn 0x17 = []
   \<and> external_status 0x22 = UDP_Open \<and> maintenance_trace sn 0x22 = []
   \<and> (if raw \<in> {0x00, 0x13, 0x14, 0x17, 0x1C, 0x22} then external_status raw \<noteq> Temporary
       else external_status raw = Temporary \<and> maintenance_trace sn raw = [])"
  by (simp add: socketStatus_eq external_status_def maintenance_trace_def maintenance_command_def)

section \<open>rdSocketReg16_atomic\<close>

lemma length_read_values [simp]: "length (read_values h sn offset k w) = k"
  by (induction k arbitrary: w) simp_all

lemma reads_used_le: "snd (stable_scan prev vs) \<le> length vs"
  by (induction vs arbitrary: prev) auto

lemma trace_after_reads [simp]:
  "trace (after_reads h sn offset k w) = trace w @ concat (replicate k (reg16_read h sn offset))"
  by (induction k arbitrary: w) simp_all

lemma clock_after_reads [simp]: "clock (after_reads h sn offset k w) = clock w"
  by (induction k arbitrary: w) simp_all

lemma tries_of_nat:
  assumes "t \<le> 20"
  shows "(of_nat t :: 8 word) < 20 \<longleftrightarrow> t < 20"
    and "(1 :: 8 word) \<le> of_nat t \<longleftrightarrow> 1 \<le> t"
    and "(of_nat t :: 8 word) + 1 = of_nat (Suc t)"
proof -
  have u: "unat (of_nat t :: 8 word) = t" using assms by (simp add: unat_of_nat)
  show "(of_nat t :: 8 word) < 20 \<longleftrightarrow> t < 20" by (simp add: word_less_nat_alt u)
  show "(1 :: 8 word) \<le> of_nat t \<longleftrightarrow> 1 \<le> t" by (simp add: word_le_nat_alt u)
  show "(of_nat t :: 8 word) + 1 = of_nat (Suc t)" by simp
qed

lemma atomic_loop_scan:
  "k + t = 20 \<Longrightarrow>
   atomic_loop h sn offset (of_nat t) last_value w
   = (fst (stable_scan (if t = 0 then None else Some last_value) (read_values h sn offset k w)),
      after_reads h sn offset
        (snd (stable_scan (if t = 0 then None else Some last_value) (read_values h sn offset k w))) w)"
proof (induction k arbitrary: t last_value w)
  case 0
  then have "t = 20" by simp
  then show ?case by (simp add: atomic_loop.simps [of h sn offset 20])
next
  case (Suc k)
  then have t: "t \<le> 20" "t < 20" by simp_all
  have st: "k + Suc t = 20" using Suc.prems by simp
  note ih = Suc.IH [OF st]
  show ?case
    using t
    by (subst atomic_loop.simps)
       (auto simp add: tries_of_nat [OF t(1)] ih simp del: of_nat_Suc)
qed

lemma scan_first_repeat:
  "Suc k < length vs \<Longrightarrow> \<forall>i<k. vs ! i \<noteq> vs ! Suc i \<Longrightarrow> vs ! k = vs ! Suc k \<Longrightarrow>
   prev \<noteq> Some (vs ! 0) \<Longrightarrow> stable_scan prev vs = (vs ! k, k + 2)"
proof (induction k arbitrary: vs prev)
  case 0
  then obtain a b rest where "vs = a # b # rest"
    by (cases vs; cases "tl vs") auto
  with 0 show ?case by simp
next
  case (Suc k)
  then obtain a rest where vs: "vs = a # rest" by (cases vs) auto
  from Suc.prems vs have "Suc k < length rest" by simp
  moreover from Suc.prems(2) vs have "\<forall>i<k. rest ! i \<noteq> rest ! Suc i" by auto
  moreover from Suc.prems(3) vs have "rest ! k = rest ! Suc k" by simp
  moreover from Suc.prems(2) vs have "Some a \<noteq> Some (rest ! 0)" by auto
  ultimately have "stable_scan (Some a) rest = (rest ! k, k + 2)" by (rule Suc.IH)
  with Suc.prems(4) vs show ?case by simp
qed

lemma scan_no_repeat:
  "\<forall>i. Suc i < length vs \<longrightarrow> vs ! i \<noteq> vs ! Suc i \<Longrightarrow> (vs \<noteq> [] \<Longrightarrow> prev \<noteq> Some (vs ! 0)) \<Longrightarrow>
   stable_scan prev vs = (0, length vs)"
proof (induction vs arbitrary: prev)
  case Nil
  show ?case by simp
next
  case (Cons a rest)
  have "\<forall>i. Suc i < length rest \<longrightarrow> rest ! i \<noteq> rest ! Suc i"
    using Cons.prems(1) by auto
  moreover have "rest \<noteq> [] \<Longrightarrow> Some a \<noteq> Some (rest ! 0)"
    using Cons.prems(1) by (cases rest) auto
  ultimately have "stable_scan (Some a) rest = (0, length rest)" by (rule Cons.IH)
  with Cons.prems(2) show ?case by simp
qed

text \<open>
  Claim C5. \<open>rdSocketReg16_atomic\<close> reads the register at most 20 times. Its result
  is determined by the values \<open>vs\<close> that 20 successive reads would return: from the
  second read on it returns the value just read as soon as it equals the one read before,
  after \<open>k + 2\<close> reads when reads \<open>k + 1\<close> and \<open>k + 2\<close> are the first consecutive pair
  that agrees; when reads 5 and 6 agree and no other consecutive pair does, it returns
  that value; when no consecutive pair agrees it returns 0 after 20 reads.
\<close>

theorem rdSocketReg16_atomic_stable:
  "fst (rdSocketReg16_atomic h sn offset w) = read_atomic16 (read_values h sn offset 20 w)
   \<and> snd (rdSocketReg16_atomic h sn offset w)
       = after_reads h sn offset (reads_used (read_values h sn offset 20 w)) w
   \<and> reads_used (read_values h sn offset 20 w) \<le> 20
   \<and> (k < 19 \<and> (\<forall>i<k. read_values h sn offset 20 w ! i \<noteq> read_values h sn offset 20 w ! Suc i)
        \<and> read_values h sn offset 20 w ! k = read_values h sn offset 20 w ! Suc k
      \<longrightarrow> fst (rdSocketReg16_atomic h sn offset w) = read_values h sn offset 20 w ! Suc k
         \<and> reads_used (read_values h sn offset 20 w) = k + 2)
   \<and> ((\<forall>i<19. i \<noteq> 4 \<longrightarrow> read_values h sn offset 20 w ! i \<noteq> read_values h sn offset 20 w ! Suc i)
        \<and> read_values h sn offset 20 w ! 4 = read_values h sn offset 20 w ! 5
      \<longrightarrow> fst (rdSocketReg16_atomic h sn offset w) = read_values h sn offset 20 w ! 4)
   \<and> ((\<forall>i<19. read_values h sn offset 20 w ! i \<noteq> read_values h sn offset 20 w ! Suc i)
      \<longrightarrow> fst (rdSocketReg16_atomic h sn offset w) = 0
         \<and> reads_used (read_values h sn offset 20 w) = 20)"
proof -
  let ?vs = "read_values h sn offset 20 w"
  have loop: "rdSocketReg16_atomic h sn offset w
              = (read_atomic16 ?vs, after_reads h sn offset (reads_used ?vs) w)"
    using atomic_loop_scan [of 20 0 h sn offset 0 w]
    by (simp add: rdSocketReg16_atomic_def read_atomic16_def reads_used_def)
  have le: "reads_used ?vs \<le> 20"
    using reads_used_le [of None ?vs] by (simp add: reads_used_def)
  have first: "read_atomic16 ?vs = ?vs ! Suc k \<and> reads_used ?vs = k + 2"
    if "k < 19" "\<forall>i<k. ?vs ! i \<noteq> ?vs ! Suc i" "?vs ! k = ?vs ! Suc k" for k
  proof -
    have "stable_scan None ?vs = (?vs ! k, k + 2)"
      using that by (intro scan_first_repeat) simp_all
    with that(3) show ?thesis by (simp add: read_atomic16_def reads_used_def)
  qed
  have five: "read_atomic16 ?vs = ?vs ! 4"
    if "\<forall>i<19. i \<noteq> 4 \<longrightarrow> ?vs ! i \<noteq> ?vs ! Suc i" "?vs ! 4 = ?vs ! 5"
  proof -
    have "\<forall>i<4. ?vs ! i \<noteq> ?vs ! Suc i" using that(1) by auto
    moreover have "?vs ! 4 = ?vs ! Suc 4" using that(2) by (simp add: eval_nat_numeral)
    ultimately have "read_atomic16 ?vs = ?vs ! Suc 4" using first [of 4] by simp
    with that(2) show ?thesis by (simp add: eval_nat_numeral)
  qed
  have none: "read_atomic16 ?vs = 0 \<and> reads_used ?vs = 20"
    if "\<forall>i<19. ?vs ! i \<noteq> ?vs ! Suc i"
  proof -
    have "stable_scan None ?vs = (0, length ?vs)"
      using that by (intro scan_no_repeat) auto
    then show ?thesis by (simp add: read_atomic16_def reads_used_def)
  qed
  show ?thesis
    using loop le first five none by simp
qed

lemma script_values_1:
  "read_values script_hw 0 rx_received_size 20 (script_reads reads_repeat_5_6) = reads_repeat_5_6"
  by code_simp

lemma script_values_2:
  "read_values script_hw 0 rx_received_size 20 (script_reads reads_no_repeat) = reads_no_repeat"
  by code_simp

lemma reads_repeat_5_6_pairs: "(\<forall>i<19. i \<noteq> 4 \<longrightarrow> reads_repeat_5_6 ! i \<noteq> reads_repeat_5_6 ! Suc i)
        \<and> reads_repeat_5_6 ! 4 = reads_repeat_5_6 ! 5"
  by (simp add: reads_repeat_5_6_def eval_nat_numeral All_less_Suc)

lemma reads_no_repeat_pairs: "\<forall>i<19. reads_no_repeat ! i \<noteq> reads_no_repeat ! Suc i"
  by (simp add: reads_no_repeat_def eval_nat_numeral All_less_Suc)

theorem rdSocketReg16_atomic_stable_witness:
  "read_values script_hw 0 rx_received_size 20 (script_reads reads_repeat_5_6) = reads_repeat_5_6
   \<and> reads_repeat_5_6 ! 4 = reads_repeat_5_6 ! 5
   \<and> fst (rdSocketReg16_atomic script_hw 0 rx_received_size (script_reads reads_repeat_5_6)) = 5
   \<and> read_values script_hw 0 rx_received_size 20 (script_reads reads_no_repeat) = reads_no_repeat
   \<and> fst (rdSocketReg16_atomic script_hw 0 rx_received_size (script_reads reads_no_repeat)) = 0"
proof -
  note t1 = rdSocketReg16_atomic_stable
    [of script_hw 0 rx_received_size "script_reads reads_repeat_5_6" 4, unfolded script_values_1]
  note t2 = rdSocketReg16_atomic_stable
    [of script_hw 0 rx_received_size "script_reads reads_no_repeat" 0, unfolded script_values_2]
  from t1 reads_repeat_5_6_pairs
  have "fst (rdSocketReg16_atomic script_hw 0 rx_received_size (script_reads reads_repeat_5_6))
        = reads_repeat_5_6 ! 4"
    by blast
  then have a: "fst (rdSocketReg16_atomic script_hw 0 rx_received_size
                       (script_reads reads_repeat_5_6)) = 5"
    by (simp add: reads_repeat_5_6_def)
  from t2 reads_no_repeat_pairs
  have b: "fst (rdSocketReg16_atomic script_hw 0 rx_received_size (script_reads reads_no_repeat)) = 0"
    by blast
  show ?thesis using reads_repeat_5_6_pairs a b script_values_1 script_values_2 by blast
qed

section \<open>sendAvailable and receiveAvailable\<close>

lemma socketConnected_eq:
  "socketConnected h sn w
   = (fst (socketStatusReg h sn w) = 0x17 \<or> fst (socketStatusReg h sn w) = 0x22,
      maintenance h sn (fst (socketStatusReg h sn w)) (snd (socketStatusReg h sn w)))"
  by (simp add: socketConnected_def socketStatus_eq external_status_def)

lemma maintenance_connected [simp]:
  "raw = 0x17 \<or> raw = 0x22 \<Longrightarrow> maintenance h sn raw w = w"
  by (auto simp add: maintenance_def maintenance_command_def)

lemma rdSocketReg16_atomic_eq:
  "rdSocketReg16_atomic h sn offset w
   = (read_atomic16 (read_values h sn offset 20 w),
      after_reads h sn offset (reads_used (read_values h sn offset 20 w)) w)"
  using atomic_loop_scan [of 20 0 h sn offset 0 w]
  by (simp add: rdSocketReg16_atomic_def read_atomic16_def reads_used_def)

lemma sendAvailable_eq:
  "sendAvailable h sn w
   = (if fst (socketStatusReg h sn w) = 0x17 \<or> fst (socketStatusReg h sn w) = 0x22
      then rdSocketReg16_atomic h sn tx_free_size (snd (socketStatusReg h sn w))
      else (0, maintenance h sn (fst (socketStatusReg h sn w)) (snd (socketStatusReg h sn w))))"
  by (simp add: sendAvailable_def socketConnected_eq)

lemma receiveAvailable_eq:
  "receiveAvailable h sn w
   = (if fst (socketStatusReg h sn w) = 0x17 \<or> fst (socketStatusReg h sn w) = 0x22
      then rdSocketReg16_atomic h sn rx_received_size (snd (socketStatusReg h sn w))
      else (0, maintenance h sn (fst (socketStatusReg h sn w)) (snd (socketStatusReg h sn w))))"
  by (simp add: receiveAvailable_def socketConnected_eq)

lemma trace_sendAvailable:
  "trace (snd (sendAvailable h sn w)) = trace w @ available_trace h sn tx_free_size w"
  by (simp add: sendAvailable_eq rdSocketReg16_atomic_eq available_trace_def counter_reads_def)

lemma trace_receiveAvailable:
  "trace (snd (receiveAvailable h sn w)) = trace w @ available_trace h sn rx_received_size w"
  by (simp add: receiveAvailable_eq rdSocketReg16_atomic_eq available_trace_def counter_reads_def)

lemma clock_sendAvailable [simp]: "clock (snd (sendAvailable h sn w)) = clock w"
  by (simp add: sendAvailable_eq rdSocketReg16_atomic_eq)

lemma clock_receiveAvailable [simp]: "clock (snd (receiveAvailable h sn w)) = clock w"
  by (simp add: receiveAvailable_eq rdSocketReg16_atomic_eq)

text \<open>
  Claim C9. \<open>sendAvailable\<close> and \<open>receiveAvailable\<close> are not pure queries. Each reads
  the raw status once. If it is Established (0x17) or UDP-active (0x22), the counter
  register (free size, received size) is read with the stability loop and its result
  returned; in every other raw state the result is 0 and no counter is read, and the
  bus then carries the CLOSE command when the raw status is Init (0x13), the DISCONNECT
  command when it is CloseWait (0x1C), and nothing otherwise.
\<close>

theorem available_side_effects:
  "sendAvailable h sn w
     = (if fst (socketStatusReg h sn w) = 0x17 \<or> fst (socketStatusReg h sn w) = 0x22
        then rdSocketReg16_atomic h sn tx_free_size (snd (socketStatusReg h sn w))
        else (0, maintenance h sn (fst (socketStatusReg h sn w)) (snd (socketStatusReg h sn w))))
   \<and> receiveAvailable h sn w
     = (if fst (socketStatusReg h sn w) = 0x17 \<or> fst (socketStatusReg h sn w) = 0x22
        then rdSocketReg16_atomic h sn rx_received_size (snd (socketStatusReg h sn w))
        else (0, maintenance h sn (fst (socketStatusReg h sn w)) (snd (socketStatusReg h sn w))))
   \<and> trace (snd (sendAvailable h sn w))
     = trace w @ status_read h sn
         @ (if fst (socketStatusReg h sn w) = 0x17 \<or> fst (socketStatusReg h sn w) = 0x22
            then concat (replicate
                   (reads_used (read_values h sn tx_free_size 20 (snd (socketStatusReg h sn w))))
                   (reg16_read h sn tx_free_size))
            else if fst (socketStatusReg h sn w) = 0x13 then command_write sn CLOSE
            else if fst (socketStatusReg h sn w) = 0x1C then command_write sn DISCONNECT
            else [])
   \<and> trace (snd (receiveAvailable h sn w))
     = trace w @ status_read h sn
         @ (if fst (socketStatusReg h sn w) = 0x17 \<or> fst (socketStatusReg h sn w) = 0x22
            then concat (replicate
                   (reads_used (read_values h sn rx_received_size 20 (snd (socketStatusReg h sn w))))
                   (reg16_read h sn rx_received_size))
            else if fst (socketStatusReg h sn w) = 0x13 then command_write sn CLOSE
            else if fst (socketStatusReg h sn w) = 0x1C then command_write sn DISCONNECT
            else [])
   \<and> trace (maintenance h sn 0x13 w1) = trace w1 @ command_write sn CLOSE
   \<and> trace (maintenance h sn 0x1C w1) = trace w1 @ command_write sn DISCONNECT"
  by (simp add: sendAvailable_eq [symmetric] receiveAvailable_eq [symmetric]
        trace_sendAvailable trace_receiveAvailable available_trace_def counter_reads_def
        maintenance_trace_def maintenance_command_def)

section \<open>send\<close>

lemma send_eq:
  "send h sn data len w =
     (if min len (fst (sendAvailable h sn w)) = 0 then (0, data, snd (sendAvailable h sn w))
      else (min len (fst (sendAvailable h sn w)),
            fst (transfer h (tx_frame sn (fst (rdSocketReg16 h sn tx_write_pointer (snd (sendAvailable h sn w)))))
                   data (min len (fst (sendAvailable h sn w)))
                   (snd (rdSocketReg16 h sn tx_write_pointer (snd (sendAvailable h sn w))))),
            socketCommand h sn SEND
              (wrSocketReg16 h sn tx_write_pointer
                 (fst (rdSocketReg16 h sn tx_write_pointer (snd (sendAvailable h sn w)))
                    + min len (fst (sendAvailable h sn w)))
                 (snd (transfer h (tx_frame sn (fst (rdSocketReg16 h sn tx_write_pointer (snd (sendAvailable h sn w)))))
                         data (min len (fst (sendAvailable h sn w)))
                         (snd (rdSocketReg16 h sn tx_write_pointer (snd (sendAvailable h sn w)))))))))"
  by (simp add: send_def Let_def case_prod_beta tx_frame_def)

text \<open>
  Claim C7. \<open>send\<close> clamps \<open>len\<close> to \<open>sendAvailable\<close>. If the clamped length is 0 it
  returns 0, leaves the buffer alone and does nothing after the availability query.
  Otherwise it reads the TX write pointer, writes the clamped number of bytes to the TX
  buffer at that pointer, writes the pointer plus the length back (16-bit addition that
  wraps: 0xFFF8 + 16 = 0x0008), issues SEND, and returns the clamped length. The
  caller's buffer holds at least \<open>len\<close> bytes.
\<close>

theorem send_clamped:
  assumes "unat len \<le> length data"
  shows
    "(if min len (fst (sendAvailable h sn w)) = 0
      then send h sn data len w = (0, data, snd (sendAvailable h sn w))
      else fst (send h sn data len w) = min len (fst (sendAvailable h sn w))
         \<and> trace (snd (snd (send h sn data len w)))
             = trace (snd (sendAvailable h sn w))
                 @ reg16_read h sn tx_write_pointer
                 @ bus_frame (tx_frame sn (fst (rdSocketReg16 h sn tx_write_pointer (snd (sendAvailable h sn w)))))
                     (take (unat (min len (fst (sendAvailable h sn w)))) data)
                 @ reg16_write sn tx_write_pointer
                     (fst (rdSocketReg16 h sn tx_write_pointer (snd (sendAvailable h sn w)))
                        + min len (fst (sendAvailable h sn w)))
                 @ command_write sn SEND
         \<and> length (take (unat (min len (fst (sendAvailable h sn w)))) data)
             = unat (min len (fst (sendAvailable h sn w))))
     \<and> trace (snd (sendAvailable h sn w)) = trace w @ available_trace h sn tx_free_size w
     \<and> unat (fst (rdSocketReg16 h sn tx_write_pointer (snd (sendAvailable h sn w)))
               + min len (fst (sendAvailable h sn w)))
         = (unat (fst (rdSocketReg16 h sn tx_write_pointer (snd (sendAvailable h sn w))))
              + unat (min len (fst (sendAvailable h sn w)))) mod 2 ^ 16
     \<and> (0xFFF8 :: 16 word) + 16 = 0x0008"
proof -
  have "unat (min len (fst (sendAvailable h sn w))) \<le> unat len"
    by (simp add: word_le_nat_alt [symmetric])
  with assms have "length (take (unat (min len (fst (sendAvailable h sn w)))) data)
                   = unat (min len (fst (sendAvailable h sn w)))"
    by simp
  moreover have "unat (pointer + n) = (unat pointer + unat n) mod 2 ^ 16"
    for pointer n :: "16 word"
    by (simp add: unat_word_ariths)
  ultimately show ?thesis
    by (simp add: send_eq trace_sendAvailable)
qed

lemma sim_send_available: "fst (sendAvailable sim_hw 1 sim_udp_socket) = 0x0800"
  by code_simp

lemma sim_write_pointer:
  "fst (rdSocketReg16 sim_hw 1 tx_write_pointer (snd (sendAvailable sim_hw 1 sim_udp_socket))) = 0xFFF8"
  by code_simp

theorem send_clamped_witness:
  "unat (16 :: 16 word) \<le> length [1, 2, 3, 4, 5, 6, 7, 8, 9, 10, 11, 12, 13, 14, 15, 16 :: 8 word]
   \<and> fst (send sim_hw 1 [1, 2, 3, 4, 5, 6, 7, 8, 9, 10, 11, 12, 13, 14, 15, 16] 16 sim_udp_socket) = 16
   \<and> trace (snd (snd (send sim_hw 1 [1, 2, 3, 4, 5, 6, 7, 8, 9, 10, 11, 12, 13, 14, 15, 16] 16
                         sim_udp_socket)))
       = trace (snd (sendAvailable sim_hw 1 sim_udp_socket))
           @ reg16_read sim_hw 1 tx_write_pointer
           @ bus_frame (tx_frame 1 0xFFF8) [1, 2, 3, 4, 5, 6, 7, 8, 9, 10, 11, 12, 13, 14, 15, 16]
           @ reg16_write 1 tx_write_pointer 0x0008
           @ command_write 1 SEND"
proof -
  have h: "unat (16 :: 16 word) \<le> length [1, 2, 3, 4, 5, 6, 7, 8, 9, 10, 11, 12, 13, 14, 15, 16 :: 8 word]"
    by simp
  have p: "(65544 :: 16 word) = 8" by simp
  show ?thesis
    using h send_clamped [OF h, of sim_hw 1 sim_udp_socket]
    by (simp add: sim_send_available sim_write_pointer p)
qed

section \<open>receive\<close>

lemma be16_value:
  fixes a b :: "8 word"
  shows "uint (push_bit 8 (ucast a) OR ucast b :: 32 word) = 256 * uint a + uint b"
proof -
  let ?a = "ucast a :: 32 word" and ?b = "ucast b :: 32 word"
  have disj: "push_bit 8 ?a OR ?b = push_bit 8 ?a + ?b"
    by (rule disjunctive_add [symmetric]) (auto simp add: bit_simps dest: bit_imp_le_length)
  have a: "uint ?a = uint a" and b: "uint ?b = uint b"
    by (simp_all add: uint_up_ucast is_up)
  have la: "uint a < 256" using uint_lt2p [of a] by simp
  have lb: "uint b < 256" using uint_lt2p [of b] by simp
  have "0 \<le> uint a" "0 \<le> uint b" by simp_all
  have "uint (push_bit 8 ?a + ?b) = (256 * uint ?a + uint ?b) mod 2 ^ 32"
    by (simp add: uint_word_ariths push_bit_eq_mult mod_simps mult.commute)
  also have "\<dots> = 256 * uint a + uint b"
    using la lb \<open>0 \<le> uint a\<close> \<open>0 \<le> uint b\<close> by (simp add: a b)
  finally show ?thesis by (simp add: disj)
qed

lemma clamp_nat:
  fixes n :: "16 word" and a b :: "8 word"
  assumes "8 \<le> n"
  shows "unat (word_of_int (min (uint n - 8) (256 * uint a + uint b)) :: 16 word)
         = min (unat n - 8) (256 * unat a + unat b)"
proof -
  have n8: "8 \<le> unat n" using assms by (simp add: word_le_nat_alt)
  have nn: "unat n < 65536" using unsigned_less [of n, where ?'a = nat] by simp
  have e1: "uint n - 8 = int (unat n - 8)" using n8 by simp
  have e2: "256 * uint a + uint b = int (256 * unat a + unat b)" by simp
  have e3: "min (uint n - 8) (256 * uint a + uint b)
            = int (min (unat n - 8) (256 * unat a + unat b))"
    unfolding e1 e2 by (simp only: of_nat_min)
  have lt: "min (unat n - 8) (256 * unat a + unat b) < 65536" using nn by simp
  show ?thesis
    unfolding e3 using lt by (simp add: unat_of_nat)
qed

lemma unat_udp_payload_len:
  assumes "8 \<le> n"
  shows "unat (udp_payload_len n hdr) = min (unat n - 8) (256 * unat (hdr ! 6) + unat (hdr ! 7))"
  using clamp_nat [OF assms, of "hdr ! 6" "hdr ! 7"]
  by (simp only: udp_payload_len_def udp_declared_length_def be16_value)

lemma receive_data_eq:
  "receive_data h sn data len read_pointer w
   = (len, fst (transfer h (rx_frame sn read_pointer) data len w),
      socketCommand h sn RECV
        (wrSocketReg16 h sn rx_read_pointer (read_pointer + len)
           (snd (transfer h (rx_frame sn read_pointer) data len w))))"
  by (simp add: receive_data_def rx_frame_def case_prod_beta)

lemma take_eight [simp]: "take (unat (8 :: 16 word)) (replicate 8 b) = replicate 8 b"
  by simp

text \<open>
  Claim C6. \<open>receive\<close> with \<open>udpIgnoreHeader\<close>: the requested length is clamped to
  \<open>receiveAvailable\<close>, giving \<open>n\<close>. If \<open>n < 8\<close> (in particular when the caller asked
  for fewer than 8 bytes), the result is 0, the buffer is untouched, and there is no
  pointer write-back and no RECV command: the call ends after the availability query
  (\<open>n = 0\<close>) or after reading the read pointer. Otherwise the 8-byte header is read at the
  read pointer, its last two bytes give the declared length \<open>L\<close> (big-endian), exactly
  \<open>min (n - 8) L\<close> payload bytes are read from the pointer plus 8 into the buffer, the
  pointer plus 8 plus that count is written back, RECV is issued, and that count is
  returned. The caller's buffer holds at least \<open>len\<close> bytes.
\<close>

theorem receive_strip_header:
  assumes "unat len \<le> length data"
  shows
    "(let w0 = snd (receiveAvailable h sn w);
          n = min len (fst (receiveAvailable h sn w));
          rp = fst (rdSocketReg16 h sn rx_read_pointer w0);
          w1 = snd (rdSocketReg16 h sn rx_read_pointer w0);
          hdr = fst (transfer h (rx_frame sn rp) (replicate 8 (uninit h)) 8 w1);
          w2 = snd (transfer h (rx_frame sn rp) (replicate 8 (uninit h)) 8 w1);
          r = receive h sn data len True w
      in (if n < 8
          then fst r = 0 \<and> fst (snd r) = data \<and> snd (snd r) = (if n = 0 then w0 else w1)
          else unat (fst r) = min (unat n - 8) (256 * unat (hdr ! 6) + unat (hdr ! 7))
             \<and> trace (snd (snd r))
                 = trace w1 @ bus_frame (rx_frame sn rp) (replicate 8 (uninit h))
                     @ bus_frame (rx_frame sn (rp + 8)) (take (unat (fst r)) data)
                     @ reg16_write sn rx_read_pointer (rp + 8 + fst r)
                     @ command_write sn RECV
             \<and> length (take (unat (fst r)) data) = unat (fst r)
             \<and> fst (snd r)
                 = device_reply h (rx_frame sn (rp + 8)) (take (unat (fst r)) data) (dev w2)
                     @ drop (unat (fst r)) data)
         \<and> trace w1 = trace w0 @ reg16_read h sn rx_read_pointer
         \<and> trace w0 = trace w @ available_trace h sn rx_received_size w
         \<and> n \<le> len \<and> length hdr = 8)"
proof -
  define w0 where "w0 = snd (receiveAvailable h sn w)"
  define n where "n = min len (fst (receiveAvailable h sn w))"
  define rp where "rp = fst (rdSocketReg16 h sn rx_read_pointer w0)"
  define w1 where "w1 = snd (rdSocketReg16 h sn rx_read_pointer w0)"
  define hdr where "hdr = fst (transfer h (rx_frame sn rp) (replicate 8 (uninit h)) 8 w1)"
  define w2 where "w2 = snd (transfer h (rx_frame sn rp) (replicate 8 (uninit h)) 8 w1)"
  define r where "r = receive h sn data len True w"
  note defs = w0_def n_def rp_def w1_def hdr_def w2_def r_def
  have small: "fst r = 0 \<and> fst (snd r) = data \<and> snd (snd r) = (if n = 0 then w0 else w1)"
    if "n < 8"
    using that by (simp add: defs receive_def Let_def case_prod_beta)
  have big_r: "r = receive_data h sn data (udp_payload_len n hdr) (rp + 8) w2" if "\<not> n < 8"
  proof -
    from that have "n \<noteq> 0" by auto
    with that show ?thesis
      by (simp add: defs receive_def Let_def case_prod_beta rx_frame_def)
  qed
  have len_r: "unat (fst r) = min (unat n - 8) (256 * unat (hdr ! 6) + unat (hdr ! 7))"
    if "\<not> n < 8"
    using that big_r [OF that] unat_udp_payload_len [of n hdr]
    by (simp add: receive_data_eq)
  have nlen: "unat n \<le> unat len" by (simp add: n_def word_le_nat_alt [symmetric])
  have fits: "length (take (unat (fst r)) data) = unat (fst r)" if "\<not> n < 8"
    using len_r [OF that] nlen assms by simp
  have tr: "trace (snd (snd r))
            = trace w1 @ bus_frame (rx_frame sn rp) (replicate 8 (uninit h))
                @ bus_frame (rx_frame sn (rp + 8)) (take (unat (fst r)) data)
                @ reg16_write sn rx_read_pointer (rp + 8 + fst r)
                @ command_write sn RECV"
    if "\<not> n < 8"
    by (simp add: big_r [OF that] receive_data_eq w2_def)
  have buf: "fst (snd r)
             = device_reply h (rx_frame sn (rp + 8)) (take (unat (fst r)) data) (dev w2)
                 @ drop (unat (fst r)) data"
    if "\<not> n < 8"
    by (simp add: big_r [OF that] receive_data_eq fst_transfer)
  have rest: "trace w1 = trace w0 @ reg16_read h sn rx_read_pointer"
    "trace w0 = trace w @ available_trace h sn rx_received_size w"
    "n \<le> len" "length hdr = 8"
    by (simp_all add: defs trace_receiveAvailable)
  show ?thesis
    unfolding Let_def defs [symmetric]
    using small len_r fits tr buf rest by simp
qed

lemma sim_receive_available: "fst (receiveAvailable sim_hw 1 sim_udp_socket) = 13"
  by code_simp

lemma sim_read_pointer:
  "fst (rdSocketReg16 sim_hw 1 rx_read_pointer (snd (receiveAvailable sim_hw 1 sim_udp_socket)))
   = 0xFFFC"
  by code_simp

lemma sim_udp_header:
  "fst (transfer sim_hw (rx_frame 1 0xFFFC) (replicate 8 (uninit sim_hw)) 8
          (snd (rdSocketReg16 sim_hw 1 rx_read_pointer
                  (snd (receiveAvailable sim_hw 1 sim_udp_socket)))))
   = [192, 168, 0, 7, 0x1F, 0x90, 0x00, 0x05]"
  by code_simp

lemma sim_payload:
  "device_reply sim_hw (rx_frame 1 0x0004) [0, 0, 0, 0, 0]
     (dev (snd (transfer sim_hw (rx_frame 1 0xFFFC) (replicate 8 (uninit sim_hw)) 8
                  (snd (rdSocketReg16 sim_hw 1 rx_read_pointer
                          (snd (receiveAvailable sim_hw 1 sim_udp_socket)))))))
   = [0x68, 0x65, 0x6C, 0x6C, 0x6F]"
  by code_simp

theorem receive_strip_header_witness:
  "unat (20 :: 16 word) \<le> length (replicate 20 (0 :: 8 word))
   \<and> fst (receive sim_hw 1 (replicate 20 0) 20 True sim_udp_socket) = 5
   \<and> fst (snd (receive sim_hw 1 (replicate 20 0) 20 True sim_udp_socket))
       = [0x68, 0x65, 0x6C, 0x6C, 0x6F] @ replicate 15 0
   \<and> trace (snd (snd (receive sim_hw 1 (replicate 20 0) 20 True sim_udp_socket)))
       = trace (snd (receiveAvailable sim_hw 1 sim_udp_socket))
           @ reg16_read sim_hw 1 rx_read_pointer
           @ bus_frame (rx_frame 1 0xFFFC) (replicate 8 (uninit sim_hw))
           @ bus_frame (rx_frame 1 0x0004) [0, 0, 0, 0, 0]
           @ reg16_write 1 rx_read_pointer 0x0009
           @ command_write 1 RECV"
proof -
  have h: "unat (20 :: 16 word) \<le> length (replicate 20 (0 :: 8 word))" by simp
  note t = receive_strip_header [OF h, of sim_hw 1 sim_udp_socket, unfolded Let_def
             sim_receive_available sim_read_pointer sim_udp_header]
  have p: "(0xFFFC :: 16 word) + 8 = 4" "(65540 :: 16 word) = 4" "(0xFFFC :: 16 word) + 8 + 5 = 9"
    "(65545 :: 16 word) = 9"
    by simp_all
  from t have u: "unat (fst (receive sim_hw 1 (replicate 20 0) 20 True sim_udp_socket)) = 5"
    by simp
  then have r: "fst (receive sim_hw 1 (replicate 20 0) 20 True sim_udp_socket) = 5"
    by (simp add: word_unat_eq_iff)
  have tk: "take 5 (replicate 20 (0 :: 8 word)) = [0, 0, 0, 0, 0]"
    "drop 5 (replicate 20 (0 :: 8 word)) = replicate 15 0"
    by (simp_all add: eval_nat_numeral)
  show ?thesis
    using h t r tk sim_payload by (simp add: p)
qed

section \<open>What a successful poll saw\<close>

lemma wait_loop_observed:
  "wait_loop h frame msk val t s w = (True, w') \<Longrightarrow>
   \<exists>wp. w' = snd (transfer h frame [uninit h] 1 wp)
      \<and> hd (fst (transfer h frame [uninit h] 1 wp)) AND msk = val"
proof (induction h frame msk val t s w rule: wait_loop.induct)
  case (1 h frame msk val t s w)
  let ?w2 = "snd (transfer h frame [uninit h] 1 (snd (millis w)))"
  let ?d = "hd (fst (transfer h frame [uninit h] 1 (snd (millis w))))"
  from "1.prems" have lt: "clock w - s < t"
    by (simp add: wait_loop.simps [of h frame msk val t s w] split: if_splits)
  show ?case
  proof (cases "?d AND msk = val")
    case True
    with lt "1.prems" have "w' = ?w2"
      by (simp add: wait_loop.simps [of h frame msk val t s w])
    with True show ?thesis by blast
  next
    case False
    with lt "1.prems" have "wait_loop h frame msk val t s (delay h 1 ?w2) = (True, w')"
      by (simp add: wait_loop.simps [of h frame msk val t s w])
    with "1.IH" lt False show ?thesis by simp
  qed
qed

lemma unat_of_nat_32: "k \<le> unat (t :: 32 word) \<Longrightarrow> unat (of_nat k :: 32 word) = k"
proof -
  assume "k \<le> unat t"
  moreover have "unat t < 2 ^ 32" using unsigned_less [of t, where ?'a = nat] by simp
  ultimately show ?thesis by (simp add: unat_of_nat)
qed

lemma wait_for_value_run:
  "trace (snd (wait_for_value h frame msk val t w))
     = trace w @ ReadMillis
         # poll_trace h frame (unat (clock (snd (wait_for_value h frame msk val t w)) - clock w))
             (fst (wait_for_value h frame msk val t w))
   \<and> (fst (wait_for_value h frame msk val t w)
       \<longleftrightarrow> unat (clock (snd (wait_for_value h frame msk val t w)) - clock w) < unat t)
   \<and> unat (clock (snd (wait_for_value h frame msk val t w)) - clock w) \<le> unat t"
proof -
  obtain ok w' where r: "wait_loop h frame msk val t (clock w) (snd (millis w)) = (ok, w')"
    by (cases "wait_loop h frame msk val t (clock w) (snd (millis w))")
  have "unat (clock (snd (millis w)) - clock w) \<le> unat t" by simp
  from wait_loop_run [OF r this]
  obtain k where k: "trace w' = trace w @ ReadMillis # poll_trace h frame k ok"
    "clock w' = clock w + of_nat k" "if ok then k < unat t else k = unat t"
    by (auto split: if_splits)
  from k(3) have "k \<le> unat t" by (simp split: if_splits)
  then have "unat (of_nat k :: 32 word) = k" by (rule unat_of_nat_32)
  with k(2) have e: "unat (clock w' - clock w) = k" by simp
  from k(3) have "ok \<longleftrightarrow> k < unat t" by (simp split: if_splits)
  with k(1) e \<open>k \<le> unat t\<close> show ?thesis
    by (simp add: wait_for_value_def r)
qed

lemma wait_for_value_observed:
  "fst (wait_for_value h frame msk val t w) \<Longrightarrow>
   \<exists>wp. snd (wait_for_value h frame msk val t w) = snd (transfer h frame [uninit h] 1 wp)
      \<and> hd (fst (transfer h frame [uninit h] 1 wp)) AND msk = val"
  using wait_loop_observed
    [of h frame msk val t "clock w" "snd (millis w)" "snd (wait_for_value h frame msk val t w)"]
  by (simp add: wait_for_value_def prod_eq_iff)

lemma and_FF_byte [simp]: "(x :: 8 word) AND 0xFF = x"
proof -
  have "x AND mask 8 = x" by (rule bit_word_eqI) (auto simp add: bit_simps dest: bit_imp_le_length)
  then show ?thesis by (simp add: mask_eq_exp_minus_1)
qed

lemma waitSocketStatus_observed:
  "fst (waitSocketStatus h sn status t w) \<Longrightarrow>
   \<exists>wp. socketStatusReg h sn wp = (status, snd (waitSocketStatus h sn status t w))"
proof -
  assume "fst (waitSocketStatus h sn status t w)"
  then obtain wp where
    "snd (waitSocketStatus h sn status t w)
     = snd (transfer h (socket_frame sn status_register Read) [uninit h] 1 wp)"
    "hd (fst (transfer h (socket_frame sn status_register Read) [uninit h] 1 wp)) = status"
    using wait_for_value_observed [of h "socket_frame sn status_register Read" "0xFF" status t w]
    by (auto simp add: waitSocketStatus_def socket_frame_def)
  then have "socketStatusReg h sn wp = (status, snd (waitSocketStatus h sn status t w))"
    by (simp add: socketStatusReg_def rdSocketReg_def socketReg_def socket_frame_def
          case_prod_beta)
  then show ?thesis by blast
qed

lemma waitSocketStatus_run:
  "trace (snd (waitSocketStatus h sn status t w))
     = trace w @ status_poll h sn (clock (snd (waitSocketStatus h sn status t w)) - clock w)
                   (fst (waitSocketStatus h sn status t w))"
  "fst (waitSocketStatus h sn status t w)
     \<longleftrightarrow> clock (snd (waitSocketStatus h sn status t w)) - clock w < t"
  "clock (snd (waitSocketStatus h sn status t w)) - clock w \<le> t"
  using wait_for_value_run [of h "socket_frame sn status_register Read" "0xFF" status t w]
  by (simp_all add: waitSocketStatus_def socket_frame_def status_poll_def
        word_less_nat_alt word_le_nat_alt)

section \<open>socketClose\<close>

lemma socketClose_eq:
  "socketClose h sn w =
     (if fst (socketStatusReg h sn w) = SOCK_CLOSED then snd (socketStatusReg h sn w)
      else if fst (socketStatusReg h sn w) = SOCK_ESTABLISHED
              \<or> fst (socketStatusReg h sn w) = SOCK_CLOSE_WAIT
      then (if fst (waitSocketStatus h sn SOCK_CLOSED socket_timeout
                      (socketCommand h sn DISCONNECT (snd (socketStatusReg h sn w))))
            then snd (waitSocketStatus h sn SOCK_CLOSED socket_timeout
                        (socketCommand h sn DISCONNECT (snd (socketStatusReg h sn w))))
            else socketCommand h sn CLOSE
                   (snd (waitSocketStatus h sn SOCK_CLOSED socket_timeout
                           (socketCommand h sn DISCONNECT (snd (socketStatusReg h sn w))))))
      else socketCommand h sn CLOSE (snd (socketStatusReg h sn w)))"
  by (simp add: socketClose_def case_prod_beta)

lemma clock_socketClose: "clock (socketClose h sn w) - clock w \<le> socket_timeout"
  using waitSocketStatus_run(3) [of h sn SOCK_CLOSED socket_timeout
          "socketCommand h sn DISCONNECT (snd (socketStatusReg h sn w))"]
  by (simp add: socketClose_eq)

lemma socketClose_closed:
  assumes close: "\<And>v. fst (socketStatusReg h sn (socketCommand h sn CLOSE v)) = SOCK_CLOSED"
    and stay: "\<And>v. fst (socketStatusReg h sn v) = SOCK_CLOSED \<Longrightarrow>
                 fst (socketStatusReg h sn (snd (socketStatusReg h sn v))) = SOCK_CLOSED"
  shows "fst (socketStatusReg h sn (socketClose h sn w)) = SOCK_CLOSED"
proof -
  let ?p = "waitSocketStatus h sn SOCK_CLOSED socket_timeout
              (socketCommand h sn DISCONNECT (snd (socketStatusReg h sn w)))"
  have "fst (socketStatusReg h sn (snd ?p)) = SOCK_CLOSED" if "fst ?p"
  proof -
    from waitSocketStatus_observed [OF that]
    obtain wp where wp: "socketStatusReg h sn wp = (SOCK_CLOSED, snd ?p)" by blast
    then have "fst (socketStatusReg h sn wp) = SOCK_CLOSED" by simp
    from stay [OF this] wp show ?thesis by simp
  qed
  then show ?thesis
    by (simp add: socketClose_eq close stay)
qed

lemma socketClose_last_exchange:
  "(\<exists>wp. socketStatusReg h sn wp = (SOCK_CLOSED, socketClose h sn w))
   \<or> (\<exists>v. socketClose h sn w = socketCommand h sn CLOSE v)"
proof -
  let ?w1 = "snd (socketStatusReg h sn w)"
  let ?p = "waitSocketStatus h sn SOCK_CLOSED socket_timeout (socketCommand h sn DISCONNECT ?w1)"
  show ?thesis
  proof (cases "fst (socketStatusReg h sn w) = SOCK_CLOSED")
    case True
    then have "socketStatusReg h sn w = (SOCK_CLOSED, socketClose h sn w)"
      by (simp add: socketClose_eq prod_eq_iff)
    then show ?thesis by blast
  next
    case open_: False
    show ?thesis
    proof (cases "(fst (socketStatusReg h sn w) = SOCK_ESTABLISHED
                    \<or> fst (socketStatusReg h sn w) = SOCK_CLOSE_WAIT) \<and> fst ?p")
      case True
      then have seen: "fst ?p" by blast
      from waitSocketStatus_observed [OF seen]
      obtain wp where "socketStatusReg h sn wp = (SOCK_CLOSED, snd ?p)" by blast
      moreover from True open_ have "socketClose h sn w = snd ?p"
        by (simp add: socketClose_eq)
      ultimately show ?thesis by auto
    next
      case False
      with open_ have
        "socketClose h sn w = socketCommand h sn CLOSE (snd ?p)
         \<or> socketClose h sn w = socketCommand h sn CLOSE ?w1"
        by (auto simp add: socketClose_eq)
      then show ?thesis by blast
    qed
  qed
qed

text \<open>
  Claim C2, as amended. \<open>socketClose\<close> is a total function without a result: it cannot
  report failure and it returns, at most 3000 ms of simulated time after the call. It
  reads the raw status once. Closed: nothing else happens. Established or CloseWait:
  DISCONNECT is issued and the status is polled for Closed; if that is seen before
  3000 ms have passed the call returns, otherwise CLOSE is issued. Any other status:
  CLOSE is issued. So when the call returns, either the last thing on the bus is a
  status read that returned Closed, or it is the CLOSE command, whose effect is not
  awaited. On a device where a status read that follows CLOSE returns Closed, and where
  a status read that follows a status read returning Closed returns Closed again,
  \<open>socketStatus\<close> after \<open>socketClose\<close> reports Closed.
\<close>

theorem socketClose_best_effort:
  "(let raw = fst (socketStatusReg h sn w);
        w1 = snd (socketStatusReg h sn w);
        p = waitSocketStatus h sn SOCK_CLOSED socket_timeout (socketCommand h sn DISCONNECT w1);
        elapsed = clock (snd p) - clock w
    in socketClose h sn w
         = (if raw = SOCK_CLOSED then w1
            else if raw = SOCK_ESTABLISHED \<or> raw = SOCK_CLOSE_WAIT
            then (if fst p then snd p else socketCommand h sn CLOSE (snd p))
            else socketCommand h sn CLOSE w1)
       \<and> trace (socketClose h sn w)
         = trace w @ status_read h sn
             @ (if raw = SOCK_CLOSED then []
                else if raw = SOCK_ESTABLISHED \<or> raw = SOCK_CLOSE_WAIT
                then command_write sn DISCONNECT @ status_poll h sn elapsed (elapsed < socket_timeout)
                       @ (if elapsed < socket_timeout then [] else command_write sn CLOSE)
                else command_write sn CLOSE)
       \<and> (fst p \<longleftrightarrow> elapsed < socket_timeout)
       \<and> clock (socketClose h sn w) - clock w \<le> socket_timeout)
   \<and> ((\<exists>wp. socketStatusReg h sn wp = (SOCK_CLOSED, socketClose h sn w))
        \<or> (\<exists>v. socketClose h sn w = socketCommand h sn CLOSE v))
   \<and> ((\<forall>v. fst (socketStatusReg h sn (socketCommand h sn CLOSE v)) = SOCK_CLOSED)
        \<and> (\<forall>v. fst (socketStatusReg h sn v) = SOCK_CLOSED
               \<longrightarrow> fst (socketStatusReg h sn (snd (socketStatusReg h sn v))) = SOCK_CLOSED)
      \<longrightarrow> fst (socketStatus h sn (socketClose h sn w)) = Closed)"
proof -
  let ?w1 = "snd (socketStatusReg h sn w)"
  let ?p = "waitSocketStatus h sn SOCK_CLOSED socket_timeout (socketCommand h sn DISCONNECT ?w1)"
  note run = waitSocketStatus_run [of h sn SOCK_CLOSED socket_timeout
               "socketCommand h sn DISCONNECT ?w1"]
  have ok: "fst ?p \<longleftrightarrow> clock (snd ?p) - clock w < socket_timeout"
    using run(2) by simp
  have tr: "trace (snd ?p)
            = trace w @ status_read h sn @ command_write sn DISCONNECT
                @ status_poll h sn (clock (snd ?p) - clock w) (fst ?p)"
    using run(1) by simp
  have conv: "fst (socketStatus h sn (socketClose h sn w)) = Closed"
    if "\<forall>v. fst (socketStatusReg h sn (socketCommand h sn CLOSE v)) = SOCK_CLOSED"
      "\<forall>v. fst (socketStatusReg h sn v) = SOCK_CLOSED
           \<longrightarrow> fst (socketStatusReg h sn (snd (socketStatusReg h sn v))) = SOCK_CLOSED"
  proof -
    have "fst (socketStatusReg h sn (socketClose h sn w)) = SOCK_CLOSED"
      using that by (intro socketClose_closed) auto
    then show ?thesis by (simp add: socketStatus_eq external_status_def)
  qed
  have tr_all: "trace (socketClose h sn w)
         = trace w @ status_read h sn
             @ (if fst (socketStatusReg h sn w) = SOCK_CLOSED then []
                else if fst (socketStatusReg h sn w) = SOCK_ESTABLISHED
                        \<or> fst (socketStatusReg h sn w) = SOCK_CLOSE_WAIT
                then command_write sn DISCONNECT
                       @ status_poll h sn (clock (snd ?p) - clock w)
                           (clock (snd ?p) - clock w < socket_timeout)
                       @ (if clock (snd ?p) - clock w < socket_timeout then []
                          else command_write sn CLOSE)
                else command_write sn CLOSE)"
    using tr ok by (simp add: socketClose_eq)
  show ?thesis
    unfolding Let_def
    using socketClose_eq [of h sn w] tr_all ok clock_socketClose [of h sn w] conv
      socketClose_last_exchange [of h sn w]
    by blast
qed

lemmas bus_defs = socketStatusReg_def socketCommand_def rdSocketReg_def wrSocketReg_def
  socketReg_def rdCommonReg_def commonReg_def transfer_def SPI_transfer16_def SPI_transfer_def
  digitalWrite_cs_def control_byte_def control_int_def

lemma sim_closes_on_CLOSE:
  "fst (socketStatusReg sim_hw 1 (socketCommand sim_hw 1 CLOSE v)) = SOCK_CLOSED"
  by (simp add: bus_defs sim_hw_def sim_shift_def sim_command_def Let_def)

lemma sim_stays_closed:
  "fst (socketStatusReg sim_hw 1 v) = SOCK_CLOSED \<Longrightarrow>
   fst (socketStatusReg sim_hw 1 (snd (socketStatusReg sim_hw 1 v))) = SOCK_CLOSED"
  by (simp add: bus_defs sim_hw_def sim_shift_def sim_command_def Let_def)

theorem socketClose_best_effort_witness:
  "(\<forall>v. fst (socketStatusReg sim_hw 1 (socketCommand sim_hw 1 CLOSE v)) = SOCK_CLOSED)
   \<and> fst (socketStatusReg sim_hw 1 sim_established) = SOCK_ESTABLISHED
   \<and> fst (socketStatus sim_hw 1 (socketClose sim_hw 1 sim_established)) = Closed"
proof -
  have a: "\<forall>v. fst (socketStatusReg sim_hw 1 (socketCommand sim_hw 1 CLOSE v)) = SOCK_CLOSED"
    using sim_closes_on_CLOSE by blast
  have b: "\<forall>v. fst (socketStatusReg sim_hw 1 v) = SOCK_CLOSED
          \<longrightarrow> fst (socketStatusReg sim_hw 1 (snd (socketStatusReg sim_hw 1 v))) = SOCK_CLOSED"
    using sim_stays_closed by blast
  have c: "fst (socketStatusReg sim_hw 1 sim_established) = SOCK_ESTABLISHED"
    by (simp add: bus_defs sim_hw_def sim_shift_def sim_established_def sim_world_def Let_def)
  from socketClose_best_effort [of sim_hw 1 sim_established] a b
  have "fst (socketStatus sim_hw 1 (socketClose sim_hw 1 sim_established)) = Closed"
    by blast
  with a b c show ?thesis by blast
qed

text \<open>
  Claim C2 as stated fails where CLOSE is the last thing \<open>socketClose\<close> does: on a device
  that completes CLOSE one millisecond later, a listening socket is still reported as
  TCP_Listen by the \<open>socketStatus\<close> call that follows at once, and as Closed after 1 ms.
\<close>

theorem socketClose_deferred_counterexample:
  "fst (socketStatusReg slow_hw 1 sim_listening) = SOCK_LISTEN
   \<and> trace (socketClose slow_hw 1 sim_listening)
       = trace sim_listening @ status_read slow_hw 1 @ command_write 1 CLOSE
   \<and> fst (socketStatus slow_hw 1 (socketClose slow_hw 1 sim_listening)) = TCP_Listen
   \<and> fst (socketStatus slow_hw 1 (delay slow_hw 1 (socketClose slow_hw 1 sim_listening))) = Closed"
  by (simp add: socketClose_def socketStatus_def bus_defs delay_def status_read_def
        command_write_def bus_frame_def frame_header_def socket_frame_def
        slow_hw_def slow_shift_def slow_command_def sim_command_def sim_elapse_def
        sim_listening_def sim_world_def Let_def)

section \<open>socketOpen\<close>

lemma socketOpen_eq:
  "socketOpen h sn mode w =
     (if fst (rdCommonReg h phy_config w) AND 0x01 = 0 then (False, snd (rdCommonReg h phy_config w))
      else if mode = UDP then
        (if fst (waitSocketStatus h sn SOCK_UDP socket_timeout (open_issued h sn mode w))
         then (True, snd (waitSocketStatus h sn SOCK_UDP socket_timeout (open_issued h sn mode w)))
         else (False, socketClose h sn
                 (snd (waitSocketStatus h sn SOCK_UDP socket_timeout (open_issued h sn mode w)))))
      else if fst (waitSocketStatus h sn SOCK_INIT socket_timeout (open_issued h sn mode w)) then
        (if fst (waitSocketStatus h sn (terminal_status mode) socket_timeout
                   (socketCommand h sn (second_command mode)
                      (snd (waitSocketStatus h sn SOCK_INIT socket_timeout (open_issued h sn mode w)))))
         then (True, snd (waitSocketStatus h sn (terminal_status mode) socket_timeout
                   (socketCommand h sn (second_command mode)
                      (snd (waitSocketStatus h sn SOCK_INIT socket_timeout (open_issued h sn mode w))))))
         else (False, socketClose h sn
                 (snd (waitSocketStatus h sn (terminal_status mode) socket_timeout
                   (socketCommand h sn (second_command mode)
                      (snd (waitSocketStatus h sn SOCK_INIT socket_timeout (open_issued h sn mode w))))))))
      else (False, socketClose h sn
              (snd (waitSocketStatus h sn SOCK_INIT socket_timeout (open_issued h sn mode w)))))"
  by (cases mode)
     (simp_all add: socketOpen_def Let_def case_prod_beta open_issued_def terminal_status_def
        second_command_def)

lemma waitSocketStatus_timeout:
  "\<not> fst (waitSocketStatus h sn status t w) \<Longrightarrow>
   clock (snd (waitSocketStatus h sn status t w)) - clock w = t"
  using waitSocketStatus_run(2,3) [of h sn status t w] by simp

lemma waitSocketStatus_in_time:
  "fst (waitSocketStatus h sn status t w) \<Longrightarrow>
   clock (snd (waitSocketStatus h sn status t w)) - clock w < t"
  using waitSocketStatus_run(2) [of h sn status t w] by simp

text \<open>
  Claim C1, as amended. If bit 0 of the PHY configuration register reads 0, \<open>socketOpen\<close>
  returns false at once and the single PHY read is all it put on the bus. Otherwise the
  socket is closed first (\<open>socketClose\<close>, whose own DISCONNECT poll may time out without
  any effect on the result), the mode register is written and OPEN issued; then the
  status is polled: for UDP-active in UDP mode; for Init in the TCP modes, where LISTEN
  or CONNECT follows and the status is polled again for Listening or Established. A
  timeout of one of these polls of \<open>socketOpen\<close>, 3000 ms after it started, makes it close
  the socket and return false. It returns true only when its last poll saw the terminal
  status of the mode less than 3000 ms after that poll started: the world it returns is
  the one a status read returning that status leaves.
\<close>

theorem socketOpen_outcome:
  "(let phy = fst (rdCommonReg h phy_config w);
        w0 = snd (rdCommonReg h phy_config w);
        w3 = open_issued h sn mode w;
        p1 = waitSocketStatus h sn (if mode = UDP then SOCK_UDP else SOCK_INIT) socket_timeout w3;
        w5 = socketCommand h sn (second_command mode) (snd p1);
        p2 = waitSocketStatus h sn (terminal_status mode) socket_timeout w5;
        r = socketOpen h sn mode w
    in (if phy AND 0x01 = 0
        then r = (False, w0) \<and> trace w0 = trace w @ phy_read h \<and> clock w0 = clock w
        else if \<not> fst p1
        then r = (False, socketClose h sn (snd p1)) \<and> clock (snd p1) - clock w3 = socket_timeout
        else if mode = UDP then r = (True, snd p1)
        else if \<not> fst p2
        then r = (False, socketClose h sn (snd p2)) \<and> clock (snd p2) - clock w5 = socket_timeout
        else r = (True, snd p2))
       \<and> (fst r \<longrightarrow>
            phy AND 0x01 \<noteq> 0
            \<and> fst (if mode = UDP then p1 else p2)
            \<and> snd r = snd (if mode = UDP then p1 else p2)
            \<and> (\<exists>wp. socketStatusReg h sn wp = (terminal_status mode, snd r))
            \<and> clock (snd r) - clock (if mode = UDP then w3 else w5) < socket_timeout))"
proof -
  define phy where "phy = fst (rdCommonReg h phy_config w)"
  define w0 where "w0 = snd (rdCommonReg h phy_config w)"
  define w3 where "w3 = open_issued h sn mode w"
  define p1 where
    "p1 = waitSocketStatus h sn (if mode = UDP then SOCK_UDP else SOCK_INIT) socket_timeout w3"
  define w5 where "w5 = socketCommand h sn (second_command mode) (snd p1)"
  define p2 where "p2 = waitSocketStatus h sn (terminal_status mode) socket_timeout w5"
  define r where "r = socketOpen h sn mode w"
  note defs = phy_def w0_def w3_def p1_def w5_def p2_def r_def
  have udp: "terminal_status UDP = SOCK_UDP" by (simp add: terminal_status_def)
  have flow:
    "(if phy AND 0x01 = 0
      then r = (False, w0) \<and> trace w0 = trace w @ phy_read h \<and> clock w0 = clock w
      else if \<not> fst p1
      then r = (False, socketClose h sn (snd p1)) \<and> clock (snd p1) - clock w3 = socket_timeout
      else if mode = UDP then r = (True, snd p1)
      else if \<not> fst p2
      then r = (False, socketClose h sn (snd p2)) \<and> clock (snd p2) - clock w5 = socket_timeout
      else r = (True, snd p2))"
  proof (cases "mode = UDP")
    case True
    then show ?thesis
      using waitSocketStatus_timeout [of h sn SOCK_UDP socket_timeout w3]
      by (simp add: defs socketOpen_eq phy_read_def)
  next
    case False
    have c5: "clock w5 = clock (snd p1)" by (simp add: w5_def)
    from False show ?thesis
      using waitSocketStatus_timeout [of h sn SOCK_INIT socket_timeout w3]
        waitSocketStatus_timeout [of h sn "terminal_status mode" socket_timeout w5]
      unfolding c5
      by (simp add: defs socketOpen_eq phy_read_def)
  qed
  have ok: "phy AND 0x01 \<noteq> 0
            \<and> fst (if mode = UDP then p1 else p2)
            \<and> snd r = snd (if mode = UDP then p1 else p2)
            \<and> (\<exists>wp. socketStatusReg h sn wp = (terminal_status mode, snd r))
            \<and> clock (snd r) - clock (if mode = UDP then w3 else w5) < socket_timeout"
    if "fst r"
  proof (cases "mode = UDP")
    case True
    from that flow True have a: "phy AND 0x01 \<noteq> 0" "fst p1" "snd r = snd p1"
      by (auto split: if_splits)
    from a(2) True have "fst (waitSocketStatus h sn (terminal_status mode) socket_timeout w3)"
      "p1 = waitSocketStatus h sn (terminal_status mode) socket_timeout w3"
      by (simp_all add: p1_def udp)
    with waitSocketStatus_observed [of h sn "terminal_status mode" socket_timeout w3]
      waitSocketStatus_in_time [of h sn "terminal_status mode" socket_timeout w3] a True
    show ?thesis by simp
  next
    case False
    from that flow False have a: "phy AND 0x01 \<noteq> 0" "fst p2" "snd r = snd p2"
      by (auto split: if_splits)
    with waitSocketStatus_observed [of h sn "terminal_status mode" socket_timeout w5]
      waitSocketStatus_in_time [of h sn "terminal_status mode" socket_timeout w5] False
    show ?thesis by (simp add: p2_def)
  qed
  show ?thesis
    unfolding Let_def defs [symmetric] using flow ok by blast
qed

lemmas run_defs = socketOpen_def socketClose_def waitSocketStatus_def wait_for_value_def
  millis_def delay_def wait_loop.simps Let_def
  socketStatusReg_def socketCommand_def rdSocketReg_def wrSocketReg_def
  socketReg_def rdCommonReg_def commonReg_def transfer_def SPI_transfer16_def SPI_transfer_def
  digitalWrite_cs_def control_byte_def control_int_def
  sim_hw_def sim_shift_def sim_command_def sim_elapse_def sim_world_def sim_link_up_def

lemma sim_open_udp: "fst (socketOpen sim_hw 1 UDP sim_link_up)"
  by (simp add: run_defs)

lemma sim_open_tcp_server: "fst (socketOpen sim_hw 1 TCP_Server sim_link_up)"
  by (simp add: run_defs)

lemma sim_open_link_down: "fst (rdCommonReg sim_hw phy_config (sim_world [])) AND 0x01 = 0"
  by (simp add: run_defs)

theorem socketOpen_outcome_witness:
  "fst (socketOpen sim_hw 1 UDP sim_link_up)
   \<and> (\<exists>wp. socketStatusReg sim_hw 1 wp = (SOCK_UDP, snd (socketOpen sim_hw 1 UDP sim_link_up)))
   \<and> fst (socketOpen sim_hw 1 TCP_Server sim_link_up)
   \<and> (\<exists>wp. socketStatusReg sim_hw 1 wp
             = (SOCK_LISTEN, snd (socketOpen sim_hw 1 TCP_Server sim_link_up)))
   \<and> fst (rdCommonReg sim_hw phy_config (sim_world [])) AND 0x01 = 0
   \<and> socketOpen sim_hw 1 TCP_Client (sim_world [])
       = (False, snd (rdCommonReg sim_hw phy_config (sim_world [])))"
proof -
  note u = socketOpen_outcome [of sim_hw sim_link_up 1 UDP, unfolded Let_def]
  note s = socketOpen_outcome [of sim_hw sim_link_up 1 TCP_Server, unfolded Let_def]
  note d = socketOpen_outcome [of sim_hw "sim_world []" 1 TCP_Client, unfolded Let_def]
  from u [THEN conjunct2] sim_open_udp
  have "\<exists>wp. socketStatusReg sim_hw 1 wp
             = (terminal_status UDP, snd (socketOpen sim_hw 1 UDP sim_link_up))"
    by blast
  then have a: "\<exists>wp. socketStatusReg sim_hw 1 wp
             = (SOCK_UDP, snd (socketOpen sim_hw 1 UDP sim_link_up))"
    by (simp add: terminal_status_def)
  from s [THEN conjunct2] sim_open_tcp_server
  have "\<exists>wp. socketStatusReg sim_hw 1 wp
             = (terminal_status TCP_Server, snd (socketOpen sim_hw 1 TCP_Server sim_link_up))"
    by blast
  then have b: "\<exists>wp. socketStatusReg sim_hw 1 wp
             = (SOCK_LISTEN, snd (socketOpen sim_hw 1 TCP_Server sim_link_up))"
    by (simp add: terminal_status_def)
  from d [THEN conjunct1] sim_open_link_down
  have c: "socketOpen sim_hw 1 TCP_Client (sim_world [])
           = (False, snd (rdCommonReg sim_hw phy_config (sim_world [])))"
    by simp
  from a b c sim_open_udp sim_open_tcp_server sim_open_link_down show ?thesis by blast
qed

subsection \<open>A timeout inside the preliminary close\<close>

lemma dev_millis [simp]: "dev (snd (millis w)) = dev w"
  by (simp add: millis_def)

lemma dev_delay_1 [simp]: "dev (delay h 1 w) = elapse_ms h (dev w)"
  by (simp add: delay_def)

lemma wait_loop_stuck:
  "(\<And>v. I (dev v) \<Longrightarrow>
          I (dev (snd (transfer h frame [uninit h] 1 v)))
          \<and> hd (fst (transfer h frame [uninit h] 1 v)) AND msk \<noteq> val) \<Longrightarrow>
   (\<And>d. I d \<Longrightarrow> I (elapse_ms h d)) \<Longrightarrow> I (dev w) \<Longrightarrow>
   \<not> fst (wait_loop h frame msk val t s w) \<and> I (dev (snd (wait_loop h frame msk val t s w)))"
proof (induction h frame msk val t s w rule: wait_loop.induct)
  case (1 h frame msk val t s w)
  let ?w2 = "snd (transfer h frame [uninit h] 1 (snd (millis w)))"
  note rd = "1.prems"(1) and tick = "1.prems"(2)
  show ?case
  proof (cases "clock w - s < t")
    case False
    with "1.prems"(3) show ?thesis
      by (simp add: wait_loop.simps [of h frame msk val t s w])
  next
    case True
    have "I (dev (snd (millis w)))" using "1.prems"(3) by simp
    note r = rd [OF this]
    note a = r [THEN conjunct1] r [THEN conjunct2]
    from a(1) have i: "I (dev (delay h 1 ?w2))" using tick by simp
    from True have c: "fst (millis w) - s < t" by simp
    have "\<not> fst (wait_loop h frame msk val t s (delay h 1 ?w2))
          \<and> I (dev (snd (wait_loop h frame msk val t s (delay h 1 ?w2))))"
      using "1.IH" [OF c a(2) rd tick i] .
    with True a(2) show ?thesis
      by (simp add: wait_loop.simps [of h frame msk val t s w])
  qed
qed

lemma waitSocketStatus_stuck:
  assumes rd: "\<And>v. I (dev v) \<Longrightarrow>
                 I (dev (snd (socketStatusReg h sn v))) \<and> fst (socketStatusReg h sn v) \<noteq> status"
    and tick: "\<And>d. I d \<Longrightarrow> I (elapse_ms h d)"
    and start: "I (dev w)"
  shows "\<not> fst (waitSocketStatus h sn status t w) \<and> I (dev (snd (waitSocketStatus h sn status t w)))"
proof -
  let ?frame = "\<lparr>offset_addr = status_register, socket_n = sn, bsb = SocketReg, rw = Read\<rparr>"
  have rd': "I (dev (snd (transfer h ?frame [uninit h] 1 v)))
             \<and> hd (fst (transfer h ?frame [uninit h] 1 v)) AND 0xFF \<noteq> status"
    if "I (dev v)" for v
    using rd [OF that]
    by (simp add: socketStatusReg_def rdSocketReg_def socketReg_def case_prod_beta)
  have "I (dev (snd (millis w)))" using start by simp
  from wait_loop_stuck [of I h ?frame "0xFF" status, OF rd' tick this]
  show ?thesis by (simp add: waitSocketStatus_def wait_for_value_def)
qed

lemma sim_fin_wait_read:
  "fin_wait (dev v) \<Longrightarrow>
   fin_wait (dev (snd (socketStatusReg sim_hw 1 v))) \<and> fst (socketStatusReg sim_hw 1 v) \<noteq> SOCK_CLOSED"
  by (simp add: fin_wait_def bus_defs sim_hw_def sim_shift_def sim_command_def Let_def)

lemma sim_fin_wait_tick: "fin_wait d \<Longrightarrow> fin_wait (elapse_ms sim_hw d)"
  by (simp add: fin_wait_def sim_hw_def sim_elapse_def)

lemma sim_silent_start:
  "fst (rdCommonReg sim_hw phy_config sim_silent_peer) AND 0x01 \<noteq> 0"
  "fst (socketStatusReg sim_hw 1 (snd (rdCommonReg sim_hw phy_config sim_silent_peer)))
   = SOCK_ESTABLISHED"
  "fin_wait (dev (socketCommand sim_hw 1 DISCONNECT
                    (snd (socketStatusReg sim_hw 1
                            (snd (rdCommonReg sim_hw phy_config sim_silent_peer))))))"
  "clock (socketCommand sim_hw 1 DISCONNECT
            (snd (socketStatusReg sim_hw 1
                    (snd (rdCommonReg sim_hw phy_config sim_silent_peer))))) = clock sim_silent_peer"
  by (simp_all add: fin_wait_def bus_defs sim_hw_def sim_shift_def sim_command_def Let_def
        sim_silent_peer_def sim_world_def)

lemma sim_udp_after_close:
  "fst (waitSocketStatus sim_hw 1 SOCK_UDP socket_timeout
          (socketCommand sim_hw 1 OPEN
             (wrSocketReg sim_hw 1 socket_mode_register (mode_value UDP)
                (socketCommand sim_hw 1 CLOSE v))))
   \<and> clock (snd (waitSocketStatus sim_hw 1 SOCK_UDP socket_timeout
                    (socketCommand sim_hw 1 OPEN
                       (wrSocketReg sim_hw 1 socket_mode_register (mode_value UDP)
                          (socketCommand sim_hw 1 CLOSE v))))) = clock v + 1"
  by (simp add: waitSocketStatus_def wait_for_value_def millis_def delay_def wait_loop.simps
        bus_defs sim_hw_def sim_shift_def sim_command_def sim_elapse_def Let_def)

text \<open>
  Claim C1 as stated fails for the poll inside the preliminary \<open>socketClose\<close>: on an
  established socket whose peer never answers, the DISCONNECT poll times out after
  3000 ms, the close falls back to CLOSE, and \<open>socketOpen\<close> goes on to open the socket in
  UDP mode and returns true, 3001 ms after the call.
\<close>

theorem socketOpen_timeout_counterexample:
  "fst (socketStatusReg sim_hw 1 (snd (rdCommonReg sim_hw phy_config sim_silent_peer)))
     = SOCK_ESTABLISHED
   \<and> \<not> fst (waitSocketStatus sim_hw 1 SOCK_CLOSED socket_timeout
               (socketCommand sim_hw 1 DISCONNECT
                  (snd (socketStatusReg sim_hw 1
                          (snd (rdCommonReg sim_hw phy_config sim_silent_peer))))))
   \<and> socketClose sim_hw 1 (snd (rdCommonReg sim_hw phy_config sim_silent_peer))
       = socketCommand sim_hw 1 CLOSE
           (snd (waitSocketStatus sim_hw 1 SOCK_CLOSED socket_timeout
                   (socketCommand sim_hw 1 DISCONNECT
                      (snd (socketStatusReg sim_hw 1
                              (snd (rdCommonReg sim_hw phy_config sim_silent_peer)))))))
   \<and> fst (socketOpen sim_hw 1 UDP sim_silent_peer)
   \<and> clock (snd (socketOpen sim_hw 1 UDP sim_silent_peer)) = clock sim_silent_peer + 3001"
proof -
  let ?w0 = "snd (rdCommonReg sim_hw phy_config sim_silent_peer)"
  let ?w2 = "socketCommand sim_hw 1 DISCONNECT (snd (socketStatusReg sim_hw 1 ?w0))"
  let ?p = "waitSocketStatus sim_hw 1 SOCK_CLOSED socket_timeout ?w2"
  have stuck: "\<not> fst ?p"
    using waitSocketStatus_stuck [of fin_wait sim_hw 1 SOCK_CLOSED ?w2 socket_timeout,
            OF sim_fin_wait_read sim_fin_wait_tick sim_silent_start(3)]
    by simp
  from waitSocketStatus_timeout [OF stuck] sim_silent_start(4)
  have late: "clock (snd ?p) = clock sim_silent_peer + 3000"
    by (simp add: diff_eq_eq add.commute)
  have close: "socketClose sim_hw 1 ?w0 = socketCommand sim_hw 1 CLOSE (snd ?p)"
    using stuck sim_silent_start(2) by (simp add: socketClose_eq)
  have opened: "socketOpen sim_hw 1 UDP sim_silent_peer
                = (True, snd (waitSocketStatus sim_hw 1 SOCK_UDP socket_timeout
                            (open_issued sim_hw 1 UDP sim_silent_peer)))"
    using sim_silent_start(1) sim_udp_after_close [of "snd ?p"]
    by (simp add: socketOpen_eq open_issued_def close)
  have "clock (snd (socketOpen sim_hw 1 UDP sim_silent_peer)) = clock (snd ?p) + 1"
    using sim_udp_after_close [of "snd ?p"] by (simp add: opened open_issued_def close)
  with late have "clock (snd (socketOpen sim_hw 1 UDP sim_silent_peer))
                  = clock sim_silent_peer + 3001"
    by simp
  with stuck opened sim_silent_start(2) close show ?thesis by simp
qed

section \<open>socketKeepOpen\<close>

lemma no_timing_in_bus_frame [simp]: "filter is_timing (bus_frame frame bs) = []"
  by (simp add: bus_frame_def filter_empty_conv image_iff)

lemma socketKeepOpen_eq:
  "socketKeepOpen h sn mode w =
     (if fst (socketStatusReg h sn w) = SOCK_CLOSED \<or> fst (socketStatusReg h sn w) = SOCK_INIT
      then snd (socketOpen h sn mode (snd (socketStatusReg h sn w)))
      else if fst (socketStatusReg h sn w) = SOCK_CLOSE_WAIT
      then socketCommand h sn DISCONNECT (snd (socketStatusReg h sn w))
      else snd (socketStatusReg h sn w))"
  by (simp add: socketKeepOpen_def case_prod_beta)

text \<open>
  Claim C3, as amended. \<open>socketKeepOpen\<close> reads the raw status once. Closed or Init:
  it does what \<open>socketOpen\<close> does with the given mode (which polls). Any other status: it
  neither polls nor sleeps and the clock does not advance; CloseWait issues exactly one
  DISCONNECT command, and Listening, Established, UDP-active and every transitional
  code put nothing on the bus after the status read.
\<close>

theorem socketKeepOpen_maintenance:
  "(let raw = fst (socketStatusReg h sn w);
        w1 = snd (socketStatusReg h sn w);
        w' = socketKeepOpen h sn mode w
    in if raw = SOCK_CLOSED \<or> raw = SOCK_INIT then w' = snd (socketOpen h sn mode w1)
       else w' = (if raw = SOCK_CLOSE_WAIT then socketCommand h sn DISCONNECT w1 else w1)
          \<and> trace w' = trace w @ status_read h sn
                @ (if raw = SOCK_CLOSE_WAIT then command_write sn DISCONNECT else [])
          \<and> filter is_timing (status_read h sn @ command_write sn DISCONNECT) = []
          \<and> clock w' = clock w)"
  by (simp add: Let_def socketKeepOpen_eq status_read_def command_write_def)

text \<open>
  Claim C3 as stated fails: on a closed socket with the link up, \<open>socketKeepOpen\<close> calls
  \<open>millis\<close> three times and sleeps 1 ms, that is, it runs the poll of \<open>socketOpen\<close>.
\<close>

theorem socketKeepOpen_polls_counterexample:
  "fst (socketStatusReg sim_hw 1 sim_link_up) = SOCK_CLOSED
   \<and> trace sim_link_up = []
   \<and> filter is_timing (trace (socketKeepOpen sim_hw 1 UDP sim_link_up))
       = [ReadMillis, ReadMillis, Delay 1, ReadMillis]
   \<and> clock (socketKeepOpen sim_hw 1 UDP sim_link_up) = clock sim_link_up + 1"
  by (simp add: socketKeepOpen_def run_defs)

end
